theory Spec2Isabelle
  imports Main "HOL-Library.AList"
begin

section \<open>The three drafts of the connector\<close>

text \<open>
  The repository holds three drafts of the bridge.  \<^verbatim>\<open>src/index.ts\<close> lines 1-311 is the
  first draft (no request table, no duplicate cache, no session handshake),
  \<^verbatim>\<open>src/index.ts\<close> lines 313-765 is the second draft, and \<^verbatim>\<open>unnamed/part_001\<close> is the third.
  Every function below takes the draft as its first argument; where the drafts agree the
  argument is not inspected.
\<close>

datatype draft = Draft1 | Draft2 | Draft3

section \<open>JSON values\<close>

text \<open>
  The values \<^verbatim>\<open>JSON.parse\<close> returns.  Numbers are integers: the bridge does no arithmetic on
  them, and the ids of JSON-RPC are integers or strings.  A double holds every integer below
  \<open>2 ^ 53\<close> in magnitude and prints it digit by digit, which is what \<open>number_text\<close> below
  writes; beyond, \<^verbatim>\<open>Number.prototype.toString\<close> rounds, and from \<open>10 ^ 21\<close> on it writes an
  exponent, which \<open>number_text\<close> does not follow.  Characters are the code units up to U+00FF,
  and an object is the list of its properties in enumeration order.
\<close>

datatype json =
    JNull
  | JBool bool
  | JNum int
  | JStr string
  | JArr "json list"
  | JObj "(string \<times> json) list"

definition newline :: char where
  "newline = CHR 0x0A"

definition dquote :: char where
  "dquote = CHR 0x22"

definition backslash :: char where
  "backslash = CHR 0x5C"

text \<open>\<^verbatim>\<open>Number.prototype.toString\<close> on an integer: its decimal digits, after a minus sign if negative.\<close>

definition digits :: string where
  "digits = ''0123456789''"

function decimal :: "nat \<Rightarrow> string" where
  "decimal n = (if 10 \<le> n then decimal (n div 10) else []) @ [digits ! (n mod 10)]"
  by pat_completeness auto
termination
  by (relation "measure id") auto

declare decimal.simps [simp del]

definition number_text :: "int \<Rightarrow> string" where
  "number_text i = (if 0 \<le> i then decimal (nat i) else CHR ''-'' # decimal (nat (- i)))"

fun join :: "string \<Rightarrow> string list \<Rightarrow> string" where
  "join sep [] = []"
| "join sep [x] = x"
| "join sep (x # y # ys) = x @ sep @ join sep (y # ys)"

text \<open>\<^verbatim>\<open>QuoteJSONString\<close> of ECMAScript: what \<^verbatim>\<open>JSON.stringify\<close> writes for a string.\<close>

definition hex_digit :: "nat \<Rightarrow> char" where
  "hex_digit n = ''0123456789abcdef'' ! (n mod 16)"

definition hex2 :: "nat \<Rightarrow> string" where
  "hex2 n = [hex_digit (n div 16), hex_digit n]"

definition escape_char :: "char \<Rightarrow> string" where
  "escape_char c =
     (if c = dquote then [backslash, dquote]
      else if c = backslash then [backslash, backslash]
      else if c = CHR 0x08 then [backslash, CHR ''b'']
      else if c = CHR 0x0C then [backslash, CHR ''f'']
      else if c = CHR 0x0A then [backslash, CHR ''n'']
      else if c = CHR 0x0D then [backslash, CHR ''r'']
      else if c = CHR 0x09 then [backslash, CHR ''t'']
      else if of_char c < (32 :: nat) then [backslash, CHR ''u'', CHR ''0'', CHR ''0''] @ hex2 (of_char c)
      else [c])"

definition quote :: "string \<Rightarrow> string" where
  "quote s = [dquote] @ concat (map escape_char s) @ [dquote]"

fun JSON_stringify :: "json \<Rightarrow> string" where
  "JSON_stringify JNull = ''null''"
| "JSON_stringify (JBool b) = (if b then ''true'' else ''false'')"
| "JSON_stringify (JNum n) = number_text n"
| "JSON_stringify (JStr s) = quote s"
| "JSON_stringify (JArr xs) = ''['' @ join '','' (map JSON_stringify xs) @ '']''"
| "JSON_stringify (JObj kvs) =
     ''{'' @ join '','' (map (\<lambda>(k, v). quote k @ '':'' @ JSON_stringify v) kvs) @ ''}''"

text \<open>
  \<^verbatim>\<open>String(x)\<close>, which a template literal \<^verbatim>\<open>`${x}`\<close> applies; \<open>None\<close> when it throws a TypeError.
  An array joins its elements with commas, writing nothing for \<^verbatim>\<open>null\<close>.  An object is
  \<^verbatim>\<open>[object Object]\<close>, by the \<^verbatim>\<open>toString\<close> it inherits.  An object with a property \<^verbatim>\<open>toString\<close> of
  its own hides the inherited one; out of \<^verbatim>\<open>JSON.parse\<close> the property is no function, the
  inherited \<^verbatim>\<open>valueOf\<close> returns the object itself, and the conversion throws.
\<close>

fun String_of :: "json \<Rightarrow> string option" where
  "String_of JNull = Some ''null''"
| "String_of (JBool b) = Some (if b then ''true'' else ''false'')"
| "String_of (JNum n) = Some (number_text n)"
| "String_of (JStr s) = Some s"
| "String_of (JArr xs) =
     map_option (join '','') (those (map (\<lambda>x. if x = JNull then Some [] else String_of x) xs))"
| "String_of (JObj kvs) = (if map_of kvs ''toString'' = None then Some ''[object Object]'' else None)"

text \<open>
  \<^verbatim>\<open>data.key\<close> on a value that is not \<^verbatim>\<open>null\<close>; \<open>None\<close> is \<^verbatim>\<open>undefined\<close>.  Only own properties
  of objects are read by the bridge (\<^verbatim>\<open>id\<close>, \<^verbatim>\<open>result\<close>, \<^verbatim>\<open>error\<close>, \<^verbatim>\<open>method\<close>, \<^verbatim>\<open>params\<close>, ...);
  on \<^verbatim>\<open>null\<close> the access throws a TypeError, which every caller handles before reading.
\<close>

definition property :: "json \<Rightarrow> string \<Rightarrow> json option" where
  "property data k = (case data of JObj kvs \<Rightarrow> map_of kvs k | _ \<Rightarrow> None)"

text \<open>JavaScript truthiness of a JSON value.\<close>

definition truthy :: "json \<Rightarrow> bool" where
  "truthy v = (case v of JNull \<Rightarrow> False | JBool b \<Rightarrow> b | JNum n \<Rightarrow> n \<noteq> 0 | JStr s \<Rightarrow> s \<noteq> [] | _ \<Rightarrow> True)"

section \<open>The runtime and the effects\<close>

text \<open>
  What the bridge calls but does not define is a parameter: \<^verbatim>\<open>JSON.parse\<close> (\<open>None\<close> when it
  throws a SyntaxError), \<^verbatim>\<open>new URL(u)\<close> followed by \<^verbatim>\<open>searchParams.set("session_id", s)\<close> and
  \<^verbatim>\<open>toString()\<close> (\<open>None\<close> when the constructor throws), whether \<^verbatim>\<open>new EventSource(u)\<close>
  returns, and the process environment.
\<close>

record runtime =
  JSON_parse :: "string \<Rightarrow> json option"
  URL_with_session :: "string \<Rightarrow> string \<Rightarrow> string option"
  EventSource_new :: "string \<Rightarrow> bool"
  env :: "string \<Rightarrow> string option"

text \<open>
  What a call does to the outside, in order.  A log line is recorded with its level and a
  label that abbreviates its message; the timestamp and the interpolated values are left
  out.  \<open>Post url auth body\<close> is
  the \<^verbatim>\<open>fetch\<close> call of \<^verbatim>\<open>sendRequest\<close>, \<open>SetTimeout ms\<close> schedules \<^verbatim>\<open>connectSSE\<close>,
  \<open>Connect url\<close> is \<^verbatim>\<open>new EventSource(url)\<close> and \<open>Close\<close> is \<^verbatim>\<open>eventSource.close()\<close>.
\<close>

datatype effect =
    Stdout string
  | Stderr string
  | LogInfo string
  | LogError string
  | Post string string string
  | SetTimeout nat
  | Connect string
  | Close
  | Exit nat

definition stdout_of :: "effect list \<Rightarrow> string list" where
  "stdout_of fx = concat (map (\<lambda>e. case e of Stdout s \<Rightarrow> [s] | _ \<Rightarrow> []) fx)"

definition posts_of :: "effect list \<Rightarrow> (string \<times> string \<times> string) list" where
  "posts_of fx = concat (map (\<lambda>e. case e of Post u a b \<Rightarrow> [(u, a, b)] | _ \<Rightarrow> []) fx)"

definition logs_of :: "effect list \<Rightarrow> effect list" where
  "logs_of fx = filter (\<lambda>e. case e of LogInfo m \<Rightarrow> True | LogError m \<Rightarrow> True | Stderr m \<Rightarrow> True | _ \<Rightarrow> False) fx"

definition exits :: "effect list \<Rightarrow> bool" where
  "exits fx = list_ex (\<lambda>e. case e of Exit n \<Rightarrow> True | _ \<Rightarrow> False) fx"

section \<open>The connector\<close>

text \<open>
  A \<^verbatim>\<open>Map\<close> compares keys by SameValueZero: numbers, strings, booleans and \<^verbatim>\<open>null\<close> by value,
  arrays and objects by reference.  The objects of the bridge come out of \<^verbatim>\<open>JSON.parse\<close>, a
  new one from every call; the address of a request is the number of the call of the stdin
  loop that made it, and an array or object that is the \<^verbatim>\<open>id\<close> of a request is told from every
  other by the address of its request.
\<close>

type_synonym address = nat

datatype key = ByValue json | ByReference address json

definition primitive :: "json \<Rightarrow> bool" where
  "primitive v = (case v of JArr xs \<Rightarrow> False | JObj kvs \<Rightarrow> False | _ \<Rightarrow> True)"

text \<open>The key that the \<^verbatim>\<open>id\<close> of the request at an address is, and the value of a key.\<close>

definition key_of :: "address \<Rightarrow> json \<Rightarrow> key" where
  "key_of a i = (if primitive i then ByValue i else ByReference a i)"

fun key_value :: "key \<Rightarrow> json" where
  "key_value (ByValue i) = i"
| "key_value (ByReference a i) = i"

text \<open>
  The fields of \<^verbatim>\<open>class UniversalConnector\<close>.  \<open>eventSource\<close> says whether the field holds an
  \<^verbatim>\<open>EventSource\<close>; \<open>pendingRequests\<close> is the \<^verbatim>\<open>Map\<close> and \<open>processedMessageIds\<close> the \<^verbatim>\<open>Set\<close>, both in
  insertion order.  \<^verbatim>\<open>lastMessageTime\<close> and \<^verbatim>\<open>connectionCheckInterval\<close> are written and never
  read, and are left out.
\<close>

record connector =
  serverUrl :: json
  apiToken :: json
  eventSource :: bool
  retryCount :: nat
  shouldReconnect :: bool
  pendingRequests :: "(key \<times> json) list"
  processedMessageIds :: "string list"
  sessionId :: "string option"
  sessionIdReceived :: bool

definition MAX_RETRIES :: nat where
  "MAX_RETRIES = 5"

definition RETRY_DELAY_MS :: nat where
  "RETRY_DELAY_MS = 1000"

definition new_connector :: "json \<Rightarrow> json \<Rightarrow> connector" where
  "new_connector url token =
     \<lparr> serverUrl = url, apiToken = token, eventSource = False, retryCount = 0,
       shouldReconnect = True, pendingRequests = [], processedMessageIds = [],
       sessionId = None, sessionIdReceived = False \<rparr>"

subsection \<open>The Pending-Request Table\<close>

text \<open>
  \<^verbatim>\<open>pendingRequests.set(request.id, request)\<close>, \<^verbatim>\<open>has(request.id)\<close> and \<^verbatim>\<open>delete(request.id)\<close> for
  the request at address \<open>a\<close>, whose \<^verbatim>\<open>id\<close> is \<open>i\<close>.
\<close>

definition pending_set :: "address \<Rightarrow> json \<Rightarrow> json \<Rightarrow> (key \<times> json) list \<Rightarrow> (key \<times> json) list" where
  "pending_set a i request table = AList.update (key_of a i) request table"

definition pending_has_own :: "(key \<times> json) list \<Rightarrow> address \<Rightarrow> json \<Rightarrow> bool" where
  "pending_has_own table a i = (map_of table (key_of a i) \<noteq> None)"

definition pending_delete_own :: "address \<Rightarrow> json \<Rightarrow> (key \<times> json) list \<Rightarrow> (key \<times> json) list" where
  "pending_delete_own a i table = AList.delete (key_of a i) table"

text \<open>
  \<^verbatim>\<open>pendingRequests.has(data.id)\<close> and \<^verbatim>\<open>delete(data.id)\<close> for a push message: \<^verbatim>\<open>data\<close> has just
  been parsed, so an \<^verbatim>\<open>id\<close> that is an array or an object is a new one and no key of the table.
\<close>

definition pending_has :: "(key \<times> json) list \<Rightarrow> json \<Rightarrow> bool" where
  "pending_has table i = (primitive i \<and> map_of table (ByValue i) \<noteq> None)"

definition pending_delete :: "json \<Rightarrow> (key \<times> json) list \<Rightarrow> (key \<times> json) list" where
  "pending_delete i table = (if primitive i then AList.delete (ByValue i) table else table)"

text \<open>
  \<^verbatim>\<open>Array.from(this.pendingRequests.keys()).join(", ")\<close> converts every key with \<^verbatim>\<open>String\<close>; it
  returns when none of the conversions throws.
\<close>

definition keys_printable :: "(key \<times> json) list \<Rightarrow> bool" where
  "keys_printable table = list_all (\<lambda>(k, request). String_of (key_value k) \<noteq> None) table"

subsection \<open>The push-message handler\<close>

text \<open>
  The test of \<^verbatim>\<open>onmessage\<close>:
  \<^verbatim>\<open>(data.result !== undefined || data.error !== undefined) && data.id !== undefined\<close>.
\<close>

definition is_response :: "json \<Rightarrow> bool" where
  "is_response data =
     ((property data ''result'' \<noteq> None \<or> property data ''error'' \<noteq> None) \<and> property data ''id'' \<noteq> None)"

text \<open>\<^verbatim>\<open>`${data.id}`\<close>, and \<^verbatim>\<open>`${data.id}:${JSON.stringify(data)}`\<close>; \<open>None\<close> when the conversion throws.\<close>

definition id_text :: "json \<Rightarrow> string option" where
  "id_text data = (case property data ''id'' of None \<Rightarrow> Some ''undefined'' | Some i \<Rightarrow> String_of i)"

definition messageKey :: "json \<Rightarrow> string option" where
  "messageKey data = map_option (\<lambda>text. text @ '':'' @ JSON_stringify data) (id_text data)"

text \<open>
  The eviction loop: \<^verbatim>\<open>for (const key of set) { if (deleted >= entriesToDelete) break;
  set.delete(key); deleted++; }\<close>, over the keys in insertion order.
\<close>

fun evict :: "nat \<Rightarrow> nat \<Rightarrow> string list \<Rightarrow> string list" where
  "evict entriesToDelete deleted [] = []"
| "evict entriesToDelete deleted (key # rest) =
     (if deleted \<ge> entriesToDelete then key # rest
      else evict entriesToDelete (Suc deleted) rest)"

text \<open>\<^verbatim>\<open>processedMessageIds.add(messageKey)\<close> and the eviction that follows it.\<close>

definition cache_add :: "string \<Rightarrow> string list \<Rightarrow> string list" where
  "cache_add key ids =
     (let added = (if key \<in> set ids then ids else ids @ [key])
      in if length added > 1000 then evict (length added - 1000) 0 added else added)"

text \<open>A log line that only the second draft writes.\<close>

definition debug_log :: "draft \<Rightarrow> string \<Rightarrow> effect list" where
  "debug_log d message = (if d = Draft2 then [LogInfo message] else [])"

text \<open>
  \<^verbatim>\<open>onmessage\<close>.  The first draft forwards whatever parses.  In the later drafts a \<^verbatim>\<open>null\<close>
  makes the first property access throw, which the \<^verbatim>\<open>catch\<close> reports like a parse failure,
  and so it reports a conversion to \<^verbatim>\<open>String\<close> that throws: of \<^verbatim>\<open>data.id\<close>, which the third draft
  writes into its first log line and the second into the key of a response, and of the keys
  of the table, which the second draft writes into a log line after it has added the key to
  the cache.
\<close>

definition onmessage :: "draft \<Rightarrow> runtime \<Rightarrow> connector \<Rightarrow> string \<Rightarrow> connector \<times> effect list" where
  "onmessage d rt c event_data =
     (case JSON_parse rt event_data of
        None \<Rightarrow> (c, [LogError ''Failed to parse SSE message''])
      | Some data \<Rightarrow>
          if d = Draft1 then (c, [Stdout (JSON_stringify data @ [newline])])
          else if data = JNull then
            (c, debug_log d ''[DEBUG-ONMESSAGE] Raw event data'' @ [LogError ''Failed to parse SSE message''])
          else if d = Draft3 \<and> id_text data = None then
            (c, [LogError ''Failed to parse SSE message''])
          else
            let seen = (if d = Draft2 then [LogInfo ''[DEBUG-ONMESSAGE] Raw event data'']
                        else [LogInfo ''[SSE-MESSAGE] Received response''])
            in case property data ''id'' of
                 None \<Rightarrow> (c, seen @ [LogInfo ''Received non-RPC message from SSE''])
               | Some i \<Rightarrow>
                   if is_response data then
                     case messageKey data of
                       None \<Rightarrow> (c, seen @ [LogError ''Failed to parse SSE message''])
                     | Some key \<Rightarrow>
                         let made = debug_log d ''[DEBUG-DEDUP] Created messageKey''
                         in if key \<in> set (processedMessageIds c) then
                              (c, seen @ made @ [LogInfo ''Duplicate message, skipping''])
                            else
                              let c1 = c\<lparr>processedMessageIds := cache_add key (processedMessageIds c)\<rparr>;
                                  added = debug_log d ''[DEBUG-DEDUP] Adding messageKey''
                              in if d = Draft2 \<and> \<not> keys_printable (pendingRequests c1) then
                                   (c1, seen @ made @ added @ [LogError ''Failed to parse SSE message''])
                                 else if pending_has (pendingRequests c1) i then
                                   (c1\<lparr>pendingRequests := pending_delete i (pendingRequests c1)\<rparr>,
                                    seen @ made @ added @ debug_log d ''[DEBUG-SSE] Received response''
                                      @ [Stdout (JSON_stringify data @ [newline])])
                                 else
                                   (c1, seen @ made @ added @ debug_log d ''[DEBUG-SSE] Received response''
                                        @ [LogInfo ''Received response for unmatched request id''])
                   else (c, seen @ [LogInfo ''Received non-RPC message from SSE'']))"

subsection \<open>The session handshake\<close>

text \<open>
  \<^verbatim>\<open>endpointData.match(/session_id=([a-f0-9]{32})/)\<close>: the leftmost place where
  \<^verbatim>\<open>session_id=\<close> is followed by 32 lower-case hexadecimal digits; the result is the captured digits.
\<close>

definition hexchar :: "char \<Rightarrow> bool" where
  "hexchar c = (c \<in> set ''0123456789abcdef'')"

fun match_session_id :: "string \<Rightarrow> string option" where
  "match_session_id [] = None"
| "match_session_id (c # cs) =
     (let token = take 32 (drop 11 (c # cs))
      in if take 11 (c # cs) = ''session_id='' \<and> length token = 32 \<and> list_all hexchar token
         then Some token
         else match_session_id cs)"

definition onopen :: "draft \<Rightarrow> connector \<Rightarrow> connector \<times> effect list" where
  "onopen d c =
     (if d = Draft1 then (c\<lparr>retryCount := 0\<rparr>, [LogInfo ''SSE connection established''])
      else
        (c\<lparr>retryCount := 0, processedMessageIds := [], sessionId := None, sessionIdReceived := False\<rparr>,
         [LogInfo ''SSE connection established'']
           @ (if d = Draft3 then [LogInfo ''EventSource readyState''] else [])))"

text \<open>The listener of the \<^verbatim>\<open>endpoint\<close> event; the first draft registers none.\<close>

definition onendpoint :: "draft \<Rightarrow> connector \<Rightarrow> string \<Rightarrow> connector \<times> effect list" where
  "onendpoint d c endpointData =
     (if d = Draft1 then (c, [])
      else case match_session_id endpointData of
             Some token \<Rightarrow>
               (c\<lparr>sessionId := Some token, sessionIdReceived := True\<rparr>,
                [LogInfo ''Received endpoint event'', LogInfo ''Session ID extracted from endpoint event''])
           | None \<Rightarrow>
               (c, [LogInfo ''Received endpoint event'',
                    LogError ''Endpoint event received but no session_id found'']))"

subsection \<open>Failure and reconnection\<close>

text \<open>
  \<^verbatim>\<open>RETRY_DELAY_MS * Math.pow(2, this.retryCount - 1)\<close>, read after the increment.
\<close>

definition retry_delay :: "nat \<Rightarrow> nat" where
  "retry_delay count = RETRY_DELAY_MS * 2 ^ (count - 1)"

text \<open>
  \<^verbatim>\<open>onerror\<close>.  When the retries are used up the first draft calls \<^verbatim>\<open>process.exit(1)\<close>; the
  second draft has the call commented out (``Don't exit immediately - let the MCP protocol
  handle disconnection'') and the third has no call.  The listener that the second draft
  adds for the \<^verbatim>\<open>error\<close> event before it assigns \<^verbatim>\<open>onerror\<close> never runs: in the \<^verbatim>\<open>eventsource\<close>
  package (2.0.2 by \<^verbatim>\<open>docs/BUILD.md\<close>) assigning \<^verbatim>\<open>onerror\<close> removes the listeners the event had.
\<close>

definition onerror :: "draft \<Rightarrow> connector \<Rightarrow> connector \<times> effect list" where
  "onerror d c =
     (let heard = [LogError ''SSE connection error''];
          closing = (if eventSource c then [Close] else []);
          c1 = c\<lparr>eventSource := False\<rparr>
      in if shouldReconnect c1 \<and> retryCount c1 < MAX_RETRIES then
           (c1\<lparr>retryCount := Suc (retryCount c1)\<rparr>,
            heard @ closing @ [LogInfo ''Reconnecting'', SetTimeout (retry_delay (Suc (retryCount c1)))])
         else if shouldReconnect c1 then
           (c1\<lparr>shouldReconnect := False\<rparr>,
            heard @ closing @ [LogError ''Failed to connect after 5 attempts. Giving up.'']
              @ (if d = Draft1 then [Exit 1] else []))
         else (c1, heard @ closing))"

text \<open>
  \<^verbatim>\<open>connectSSE\<close>: closes the old source, constructs the new one and installs the handlers
  above.  The \<^verbatim>\<open>try\<close> writes \<^verbatim>\<open>serverUrl\<close> into a log line and \<^verbatim>\<open>apiToken\<close> into a header before it
  calls the constructor; when one of the three throws, the \<^verbatim>\<open>catch\<close> schedules a retry and
  never gives up.
\<close>

definition connect_failed :: "connector \<Rightarrow> effect list \<Rightarrow> connector \<times> effect list" where
  "connect_failed c before =
     (if shouldReconnect c \<and> retryCount c < MAX_RETRIES then
        (c\<lparr>retryCount := Suc (retryCount c)\<rparr>,
         before @ [LogError ''Failed to create SSE connection'',
                   SetTimeout (retry_delay (Suc (retryCount c)))])
      else (c, before @ [LogError ''Failed to create SSE connection'']))"

definition connectSSE :: "draft \<Rightarrow> runtime \<Rightarrow> connector \<Rightarrow> connector \<times> effect list" where
  "connectSSE d rt c =
     (let closing = (if eventSource c then [Close] else [])
      in case String_of (serverUrl c) of
           None \<Rightarrow> connect_failed c closing
         | Some url \<Rightarrow>
             if String_of (apiToken c) \<noteq> None \<and> EventSource_new rt url then
               (c\<lparr>eventSource := True\<rparr>, closing @ [LogInfo ''Connecting to SSE endpoint'', Connect url])
             else connect_failed c (closing @ [LogInfo ''Connecting to SSE endpoint'']))"

text \<open>
  What the event loop can hand to the connector: the events of the \<^verbatim>\<open>EventSource\<close> and the
  reconnect timer.
\<close>

datatype sse_event = Open | Endpoint string | Message string | Error | Reconnect

definition sse_step :: "draft \<Rightarrow> runtime \<Rightarrow> connector \<Rightarrow> sse_event \<Rightarrow> connector \<times> effect list" where
  "sse_step d rt c e =
     (case e of
        Open \<Rightarrow> onopen d c
      | Endpoint endpointData \<Rightarrow> onendpoint d c endpointData
      | Message event_data \<Rightarrow> onmessage d rt c event_data
      | Error \<Rightarrow> onerror d c
      | Reconnect \<Rightarrow> connectSSE d rt c)"

text \<open>Events in sequence; nothing runs after \<^verbatim>\<open>process.exit\<close>.\<close>

fun sse_run :: "draft \<Rightarrow> runtime \<Rightarrow> connector \<Rightarrow> sse_event list \<Rightarrow> connector \<times> effect list" where
  "sse_run d rt c [] = (c, [])"
| "sse_run d rt c (e # es) =
     (let (c1, fx1) = sse_step d rt c e
      in if exits fx1 then (c1, fx1)
         else let (c2, fx2) = sse_run d rt c1 es in (c2, fx1 @ fx2))"

subsection \<open>Dispatch\<close>

text \<open>
  \<^verbatim>\<open>getMessagesUrl\<close>; \<open>None\<close> when it throws (\<^verbatim>\<open>serverUrl\<close> is not a string, or \<^verbatim>\<open>new URL\<close>
  rejects the address).  \<^verbatim>\<open>replace(/\/sse$/, "/messages")\<close> rewrites the suffix.
\<close>

definition endsWith :: "string \<Rightarrow> string \<Rightarrow> bool" where
  "endsWith s suffix = (length suffix \<le> length s \<and> drop (length s - length suffix) s = suffix)"

definition getMessagesUrl :: "draft \<Rightarrow> runtime \<Rightarrow> connector \<Rightarrow> string option" where
  "getMessagesUrl d rt c =
     (case serverUrl c of
        JStr url \<Rightarrow>
          (let messagesUrl = (if endsWith url ''/sse'' then take (length url - 4) url @ ''/messages''
                              else url @ ''/messages'')
           in if d = Draft1 then Some messagesUrl
              else case sessionId c of
                     None \<Rightarrow> Some messagesUrl
                   | Some s \<Rightarrow> if s = [] then Some messagesUrl else URL_with_session rt messagesUrl s)
      | _ \<Rightarrow> None)"

datatype outcome = Resolved | Rejected

text \<open>
  The polling loop of \<^verbatim>\<open>waitForSessionId\<close>.  Each \<^verbatim>\<open>await\<close> of the 10 ms timer lets the event
  loop run: \<open>sched n\<close> are the events it delivers during the sleep that follows check \<open>n\<close>.
\<close>

function wait_loop ::
  "draft \<Rightarrow> runtime \<Rightarrow> nat \<Rightarrow> (nat \<Rightarrow> sse_event list) \<Rightarrow> connector \<Rightarrow> nat \<Rightarrow> connector \<times> effect list \<times> nat"
where
  "wait_loop d rt maxAttempts sched c attempts =
     (if \<not> sessionIdReceived c \<and> attempts < maxAttempts then
        let (c1, fx1) = sse_run d rt c (sched attempts);
            progress = (if d = Draft3 \<and> Suc attempts mod 100 = 0
                        then [LogInfo ''Still waiting for endpoint event''] else []);
            (c2, fx2, n) = wait_loop d rt maxAttempts sched c1 (Suc attempts)
        in (c2, fx1 @ progress @ fx2, n)
      else (c, [], attempts))"
  by pat_completeness auto
termination
  by (relation "measure (\<lambda>(d, rt, maxAttempts, sched, c, attempts). maxAttempts - attempts)") auto

declare wait_loop.simps [simp del]

definition maxAttempts :: "draft \<Rightarrow> nat" where
  "maxAttempts d = (if d = Draft3 then 1000 else 100)"

text \<open>
  \<^verbatim>\<open>waitForSessionId\<close>.  On a timeout the second draft generates a session id itself
  (\<open>uuid\<close> is what \<^verbatim>\<open>randomUUID()\<close> returns) and goes on; the third throws.
\<close>

definition waitForSessionId ::
  "draft \<Rightarrow> runtime \<Rightarrow> string \<Rightarrow> (nat \<Rightarrow> sse_event list) \<Rightarrow> connector \<Rightarrow> connector \<times> effect list \<times> outcome"
where
  "waitForSessionId d rt uuid sched c =
     (let (c1, fx, attempts) = wait_loop d rt (maxAttempts d) sched c 0
      in if \<not> sessionIdReceived c1 then
           if d = Draft3 then
             (c1, fx @ [LogError ''Timeout waiting for session_id from server'',
                        LogError ''The SSE endpoint event was never received''], Rejected)
           else
             (c1\<lparr>sessionId := Some uuid, sessionIdReceived := True\<rparr>,
              fx @ [LogError ''Timeout waiting for session_id from server'',
                    LogInfo ''FALLBACK: Generated session_id''], Resolved)
         else (c1, fx @ (if d = Draft3 then [LogInfo ''Session ID ready''] else []), Resolved))"

text \<open>
  What \<^verbatim>\<open>fetch\<close> comes back with: a response with its status, whose \<^verbatim>\<open>text()\<close> returns or
  throws, or a thrown transport error.
\<close>

datatype fetch_result = HttpResponse nat bool | FetchThrows

definition response_ok :: "nat \<Rightarrow> bool" where
  "response_ok status = (200 \<le> status \<and> status \<le> 299)"

text \<open>
  The cleanup of the third draft:
  \<^verbatim>\<open>if (payload.id !== undefined && this.pendingRequests.has(payload.id)) delete\<close>.
\<close>

definition cleanup :: "connector \<Rightarrow> address \<Rightarrow> json \<Rightarrow> connector" where
  "cleanup c a payload =
     (case property payload ''id'' of
        None \<Rightarrow> c
      | Some i \<Rightarrow> if pending_has_own (pendingRequests c) a i
                  then c\<lparr>pendingRequests := pending_delete_own a i (pendingRequests c)\<rparr> else c)"

text \<open>
  \<^verbatim>\<open>sendRequest\<close> for the payload at address \<open>a\<close>.  \<open>during\<close> are the events delivered while the
  POST is in flight and \<open>res\<close> is how it ends.  The first draft does not wait for a session.
  The header is built inside the \<^verbatim>\<open>try\<close>, before \<^verbatim>\<open>fetch\<close> is called: when \<^verbatim>\<open>apiToken\<close> cannot be
  converted no POST is issued and the \<^verbatim>\<open>catch\<close> runs at once.
\<close>

definition sendRequest ::
  "draft \<Rightarrow> runtime \<Rightarrow> string \<Rightarrow> (nat \<Rightarrow> sse_event list) \<Rightarrow> sse_event list \<Rightarrow> fetch_result
     \<Rightarrow> connector \<Rightarrow> address \<Rightarrow> json \<Rightarrow> connector \<times> effect list \<times> outcome"
where
  "sendRequest d rt uuid sched during res c a payload =
     (let (c1, fx1, waited) = (if d = Draft1 then (c, [], Resolved) else waitForSessionId d rt uuid sched c)
      in if waited = Rejected then (c1, fx1, Rejected)
         else case getMessagesUrl d rt c1 of
                None \<Rightarrow> (c1, fx1, Rejected)
              | Some messagesUrl \<Rightarrow>
                  let tidy = (\<lambda>c. if d = Draft3 then cleanup c a payload else c)
                  in case String_of (apiToken c1) of
                       None \<Rightarrow> (tidy c1, fx1 @ [LogError ''Failed to send request to remote server''], Resolved)
                     | Some token \<Rightarrow>
                         let post = Post messagesUrl (''Bearer '' @ token) (JSON_stringify payload);
                             (c2, fx2) = sse_run d rt c1 during
                         in case res of
                              HttpResponse status text_returns \<Rightarrow>
                                if response_ok status then (c2, fx1 @ [post] @ fx2, Resolved)
                                else if text_returns then
                                  (tidy c2, fx1 @ [post] @ fx2 @ [LogError ''POST request failed with status''],
                                   Resolved)
                                else
                                  (tidy c2, fx1 @ [post] @ fx2
                                            @ [LogError ''Failed to send request to remote server''], Resolved)
                            | FetchThrows \<Rightarrow>
                                (tidy c2, fx1 @ [post] @ fx2
                                          @ [LogError ''Failed to send request to remote server''], Resolved))"

text \<open>
  The handlers \<^verbatim>\<open>main\<close> attaches with \<^verbatim>\<open>.catch\<close> to the promise of \<^verbatim>\<open>sendRequest\<close>.  All write
  to stderr: \<open>LogInitialize\<close> is the one of the initialize branch of the second and third
  drafts, \<open>LogOnly\<close> the one of the dispatch branch of the first draft, and \<open>LogAndUntrack\<close> the
  one of the dispatch branch of the second and third drafts, which also deletes the
  request's table entry.
\<close>

datatype catch_handler = LogInitialize | LogOnly | LogAndUntrack

definition on_rejected :: "catch_handler \<Rightarrow> connector \<Rightarrow> address \<Rightarrow> json \<Rightarrow> connector \<times> effect list" where
  "on_rejected h c a request =
     (case h of
        LogInitialize \<Rightarrow> (c, [Stderr ''Error sending initialize request''])
      | LogOnly \<Rightarrow> (c, [Stderr ''Error sending request''])
      | LogAndUntrack \<Rightarrow>
          (case property request ''id'' of
             None \<Rightarrow> (c, [Stderr ''Error sending request''])
           | Some i \<Rightarrow> (c\<lparr>pendingRequests := pending_delete_own a i (pendingRequests c)\<rparr>,
                        [Stderr ''Error sending request''])))"

text \<open>\<^verbatim>\<open>connector.sendRequest(request).catch(handler)\<close> for the request at address \<open>a\<close>, run to its end.\<close>

definition send_and_catch ::
  "draft \<Rightarrow> runtime \<Rightarrow> string \<Rightarrow> (nat \<Rightarrow> sse_event list) \<Rightarrow> sse_event list \<Rightarrow> fetch_result
     \<Rightarrow> catch_handler \<Rightarrow> connector \<Rightarrow> address \<Rightarrow> json \<Rightarrow> connector \<times> effect list"
where
  "send_and_catch d rt uuid sched during res h c a request =
     (let (c1, fx1, out) = sendRequest d rt uuid sched during res c a request
      in if out = Rejected then let (c2, fx2) = on_rejected h c1 a request in (c2, fx1 @ fx2)
         else (c1, fx1))"

section \<open>The stream side\<close>

subsection \<open>Framing\<close>

text \<open>\<^verbatim>\<open>s.split("\n")\<close>: never empty; the last piece is what follows the last newline.\<close>

fun split_nl :: "string \<Rightarrow> string list" where
  "split_nl [] = [[]]"
| "split_nl (c # cs) =
     (if c = newline then [] # split_nl cs
      else (c # hd (split_nl cs)) # tl (split_nl cs))"

text \<open>
  \<^verbatim>\<open>buffer += chunk; const lines = buffer.split("\n"); buffer = lines.pop() || "";\<close>
  gives the complete lines and the new buffer.
\<close>

definition frame_split :: "string \<Rightarrow> string \<Rightarrow> string list \<times> string" where
  "frame_split buffer chunk =
     (let lines = split_nl (buffer @ chunk) in (butlast lines, last lines))"

text \<open>\<^verbatim>\<open>String.prototype.trim\<close>, on the white space and line terminators up to U+00FF.\<close>

definition is_space :: "char \<Rightarrow> bool" where
  "is_space c = (c \<in> set [CHR 0x09, CHR 0x0A, CHR 0x0B, CHR 0x0C, CHR 0x0D, CHR 0x20, CHR 0xA0])"

definition trim :: "string \<Rightarrow> string" where
  "trim s = rev (dropWhile is_space (rev (dropWhile is_space s)))"

text \<open>
  The lines the loop parses: \<^verbatim>\<open>if (!line.trim()) continue;\<close> then \<^verbatim>\<open>JSON.parse(line)\<close>.
\<close>

definition decode_lines :: "runtime \<Rightarrow> string list \<Rightarrow> json option list" where
  "decode_lines rt lines = map (JSON_parse rt) (filter (\<lambda>line. trim line \<noteq> []) lines)"

text \<open>The encoder: \<^verbatim>\<open>JSON.stringify(value) + "\n"\<close>.\<close>

definition encode :: "json \<Rightarrow> string" where
  "encode v = JSON_stringify v @ [newline]"

subsection \<open>The request loop of \<^verbatim>\<open>main\<close>\<close>

record main_state =
  buffer :: string
  the_connector :: "connector option"
  isInitialized :: bool

definition main_init :: main_state where
  "main_init = \<lparr> buffer = [], the_connector = None, isInitialized = False \<rparr>"

text \<open>
  Besides the effects above the loop starts calls of \<^verbatim>\<open>sendRequest\<close>, which run after the
  handler has returned: \<open>Inr (a, request, h)\<close> is such a call for the request at address \<open>a\<close>,
  with the handler of its \<^verbatim>\<open>.catch\<close>.
\<close>

type_synonym action = "effect + address \<times> json \<times> catch_handler"

text \<open>\<^verbatim>\<open>a || b\<close> on values that may be \<^verbatim>\<open>undefined\<close>.\<close>

definition or_else :: "json option \<Rightarrow> json option \<Rightarrow> json option" where
  "or_else a b = (case a of Some v \<Rightarrow> if truthy v then a else b | None \<Rightarrow> b)"

definition env_value :: "runtime \<Rightarrow> string \<Rightarrow> json option" where
  "env_value rt name = map_option JStr (env rt name)"

definition not_initialized_error :: "json option \<Rightarrow> json option \<Rightarrow> json" where
  "not_initialized_error request_id data =
     JObj ([(''jsonrpc'', JStr ''2.0'')]
           @ (case request_id of None \<Rightarrow> [] | Some i \<Rightarrow> [(''id'', i)])
           @ [(''error'', JObj ([(''code'', JNum (- 32002)), (''message'', JStr ''Server not initialized'')]
                                @ (case data of None \<Rightarrow> [] | Some t \<Rightarrow> [(''data'', t)])))])"

definition initialize_result :: "json option \<Rightarrow> json" where
  "initialize_result request_id =
     JObj ([(''jsonrpc'', JStr ''2.0'')]
           @ (case request_id of None \<Rightarrow> [] | Some i \<Rightarrow> [(''id'', i)])
           @ [(''result'', JObj [(''protocolVersion'', JStr ''1.0''), (''capabilities'', JObj []),
                 (''serverInfo'', JObj [(''name'', JStr ''universal-cloud-connector''),
                                       (''version'', JStr ''1.0.0'')])])])"

text \<open>
  \<^verbatim>\<open>start\<close>: three log lines, of which the second converts \<^verbatim>\<open>serverUrl\<close> and the third calls
  \<^verbatim>\<open>getMessagesUrl\<close>, so that both may throw, then \<^verbatim>\<open>connectSSE\<close>.
\<close>

definition start :: "draft \<Rightarrow> runtime \<Rightarrow> connector \<Rightarrow> connector \<times> effect list \<times> outcome" where
  "start d rt c =
     (if String_of (serverUrl c) = None then
        (c, [LogInfo ''Universal Cloud Connector starting''], Rejected)
      else case getMessagesUrl d rt c of
        None \<Rightarrow> (c, [LogInfo ''Universal Cloud Connector starting'', LogInfo ''Server URL''], Rejected)
      | Some u \<Rightarrow>
          let (c1, fx) = connectSSE d rt c
          in (c1, [LogInfo ''Universal Cloud Connector starting'', LogInfo ''Server URL'',
                   LogInfo ''Messages URL''] @ fx, Resolved))"

text \<open>
  The body of the \<^verbatim>\<open>try\<close> for one parsed line.  A TypeError (\<^verbatim>\<open>request\<close> or \<^verbatim>\<open>request.params\<close> is
  \<^verbatim>\<open>null\<close> or, for the latter, \<^verbatim>\<open>undefined\<close>; \<^verbatim>\<open>start\<close> throws) lands in the \<^verbatim>\<open>catch\<close> of the loop,
  which writes ``Failed to parse JSON'' to stderr.  The test of the first branch is
  \<^verbatim>\<open>!isInitialized && request.method === "initialize"\<close>, so once the bridge is initialized
  \<^verbatim>\<open>request.method\<close> is not read: the first draft then passes a \<^verbatim>\<open>null\<close> on to \<^verbatim>\<open>sendRequest\<close>,
  while the later drafts throw at \<^verbatim>\<open>request.id\<close>.  In their dispatch branch the later drafts
  write the id into a line for stderr after they have put the request into the table: when
  the conversion throws, the entry stays and \<^verbatim>\<open>sendRequest\<close> is not called.
\<close>

definition initialize_branch ::
  "draft \<Rightarrow> runtime \<Rightarrow> main_state \<Rightarrow> address \<Rightarrow> json \<Rightarrow> main_state \<times> action list"
where
  "initialize_branch d rt m a request =
     (case property request ''params'' of
        None \<Rightarrow> (m, [Inl (Stderr ''Failed to parse JSON'')])
      | Some params \<Rightarrow>
          if params = JNull then (m, [Inl (Stderr ''Failed to parse JSON'')])
          else
            let config = (case property params ''initializationOptions'' of
                            None \<Rightarrow> JObj []
                          | Some options \<Rightarrow> if truthy options then options else JObj []);
                from_env = (\<lambda>lower upper.
                              if d = Draft1 then env_value rt lower
                              else or_else (env_value rt lower) (env_value rt upper));
                SERVER_URL = or_else (property config ''server_url'') (from_env ''server_url'' ''SERVER_URL'');
                API_TOKEN = or_else (property config ''api_token'') (from_env ''api_token'' ''API_TOKEN'')
            in case (SERVER_URL, API_TOKEN) of
                 (Some url, Some token) \<Rightarrow>
                   if truthy url \<and> truthy token then
                     let c0 = new_connector url token;
                         c1 = (case property request ''id'' of
                                 Some i \<Rightarrow> if d = Draft1 then c0
                                           else c0\<lparr>pendingRequests :=
                                                     pending_set a i request (pendingRequests c0)\<rparr>
                               | None \<Rightarrow> c0);
                         (c2, fx, started) = start d rt c1;
                         m1 = m\<lparr>isInitialized := True, the_connector := Some c2\<rparr>
                     in if started = Rejected then
                          (m1, map Inl fx @ [Inl (Stderr ''Failed to parse JSON'')])
                        else if d = Draft1 then
                          (m1, map Inl fx
                               @ [Inl (Stdout (JSON_stringify (initialize_result (property request ''id'')) @ [newline]))])
                        else (m1, map Inl fx @ [Inr (a, request, LogInitialize)])
                   else
                     (m, [Inl (Stderr ''ERROR: server_url and api_token must be provided in config or environment''),
                          Inl (Stdout (JSON_stringify (not_initialized_error (property request ''id'')
                                 (Some (JStr ''Missing server_url or api_token configuration''))) @ [newline])),
                          Inl (Exit 1)])
               | _ \<Rightarrow>
                   (m, [Inl (Stderr ''ERROR: server_url and api_token must be provided in config or environment''),
                        Inl (Stdout (JSON_stringify (not_initialized_error (property request ''id'')
                               (Some (JStr ''Missing server_url or api_token configuration''))) @ [newline])),
                        Inl (Exit 1)]))"

definition handle_request ::
  "draft \<Rightarrow> runtime \<Rightarrow> main_state \<Rightarrow> address \<Rightarrow> json \<Rightarrow> main_state \<times> action list"
where
  "handle_request d rt m a request =
     (if \<not> isInitialized m \<and> request = JNull then (m, [Inl (Stderr ''Failed to parse JSON'')])
      else if \<not> isInitialized m \<and> property request ''method'' = Some (JStr ''initialize'') then
        initialize_branch d rt m a request
      else if isInitialized m \<and> the_connector m \<noteq> None then
        (case the_connector m of
           None \<Rightarrow> (m, [])
         | Some c \<Rightarrow>
             if d = Draft1 then (m, [Inr (a, request, LogOnly)])
             else if request = JNull then (m, [Inl (Stderr ''Failed to parse JSON'')])
             else case property request ''id'' of
                    None \<Rightarrow> (m, [Inr (a, request, LogAndUntrack)])
                  | Some i \<Rightarrow>
                      (m\<lparr>the_connector :=
                           Some (c\<lparr>pendingRequests := pending_set a i request (pendingRequests c)\<rparr>)\<rparr>,
                       if String_of i = None then [Inl (Stderr ''Failed to parse JSON'')]
                       else [Inl (Stderr ''[DEBUG] Added request id to pendingRequests''),
                             Inr (a, request, LogAndUntrack)]))
      else if \<not> isInitialized m then
        (m, [Inl (Stdout (JSON_stringify (not_initialized_error (property request ''id'') None) @ [newline]))])
      else (m, []))"

definition exits_action :: "action list \<Rightarrow> bool" where
  "exits_action acts = list_ex (\<lambda>a. case a of Inl (Exit n) \<Rightarrow> True | _ \<Rightarrow> False) acts"

text \<open>
  The loop over the parsed lines; a line that fails to parse is reported and skipped.  \<open>a\<close>
  is the number of calls of \<^verbatim>\<open>JSON.parse\<close> the loop has made before: the address of the request
  that the next call makes.
\<close>

fun handle_lines ::
  "draft \<Rightarrow> runtime \<Rightarrow> main_state \<Rightarrow> address \<Rightarrow> json option list \<Rightarrow> main_state \<times> action list"
where
  "handle_lines d rt m a [] = (m, [])"
| "handle_lines d rt m a (line # rest) =
     (let (m1, acts1) = (case line of
                           None \<Rightarrow> (m, [Inl (Stderr ''Failed to parse JSON'')])
                         | Some request \<Rightarrow> handle_request d rt m a request)
      in if exits_action acts1 then (m1, acts1)
         else let (m2, acts2) = handle_lines d rt m1 (Suc a) rest in (m2, acts1 @ acts2))"

text \<open>The \<^verbatim>\<open>data\<close> handler of \<^verbatim>\<open>stdin\<close>.\<close>

definition main_on_data ::
  "draft \<Rightarrow> runtime \<Rightarrow> main_state \<Rightarrow> address \<Rightarrow> string \<Rightarrow> main_state \<times> action list"
where
  "main_on_data d rt m a chunk =
     (let (lines, rest) = frame_split (buffer m) chunk
      in handle_lines d rt (m\<lparr>buffer := rest\<rparr>) a (decode_lines rt lines))"

text \<open>Chunks in sequence: the values parsed from all of them, and the buffer left over.\<close>

fun decode_chunks :: "runtime \<Rightarrow> string \<Rightarrow> string list \<Rightarrow> json option list \<times> string" where
  "decode_chunks rt buf [] = ([], buf)"
| "decode_chunks rt buf (chunk # chunks) =
     (let (lines, rest) = frame_split buf chunk;
          (values, final) = decode_chunks rt rest chunks
      in (decode_lines rt lines @ values, final))"

section \<open>Observations on runs\<close>

text \<open>
  Push messages delivered in sequence: each with the lines its handling wrote to stdout.
\<close>

fun deliveries :: "draft \<Rightarrow> runtime \<Rightarrow> connector \<Rightarrow> string list \<Rightarrow> (string \<times> string list) list" where
  "deliveries d rt c [] = []"
| "deliveries d rt c (raw # raws) =
     (let (c1, fx) = onmessage d rt c raw in (raw, stdout_of fx) # deliveries d rt c1 raws)"

text \<open>The fingerprint of a push message is the key the handler computes for it.\<close>

definition fingerprint :: "runtime \<Rightarrow> string \<Rightarrow> string option" where
  "fingerprint rt raw = (case JSON_parse rt raw of None \<Rightarrow> None | Some data \<Rightarrow> messageKey data)"

definition forwarded_copies :: "draft \<Rightarrow> runtime \<Rightarrow> connector \<Rightarrow> string list \<Rightarrow> string \<Rightarrow> nat" where
  "forwarded_copies d rt c raws key =
     length (filter (\<lambda>(raw, written). fingerprint rt raw = Some key \<and> written \<noteq> [])
               (deliveries d rt c raws))"

text \<open>
  A key is recent when fewer than \<open>n\<close> keys were added to the cache after it.
\<close>

definition recent :: "nat \<Rightarrow> string \<Rightarrow> string list \<Rightarrow> bool" where
  "recent n key ids = (\<exists>older newer. ids = older @ key # newer \<and> length newer < n)"

definition timeouts_of :: "effect list \<Rightarrow> nat list" where
  "timeouts_of fx = concat (map (\<lambda>e. case e of SetTimeout ms \<Rightarrow> [ms] | _ \<Rightarrow> []) fx)"

text \<open>An endpoint event that announces a session.\<close>

definition announces :: "sse_event \<Rightarrow> bool" where
  "announces e = (case e of Endpoint endpointData \<Rightarrow> match_session_id endpointData \<noteq> None | _ \<Rightarrow> False)"

text \<open>
  The token a state holds was announced by an endpoint event of the schedule, if it holds
  one.
\<close>

definition announced_in :: "(nat \<Rightarrow> sse_event list) \<Rightarrow> string option \<Rightarrow> bool" where
  "announced_in sched token =
     (token = None \<or> (\<exists>n endpointData. Endpoint endpointData \<in> set (sched n)
                          \<and> match_session_id endpointData = token))"

text \<open>
  Six failures in a row: each error is followed by the reconnect its timer starts, and the
  new connection fails again before it opens.
\<close>

definition six_failures :: "sse_event list" where
  "six_failures = [Error, Reconnect, Error, Reconnect, Error, Reconnect, Error, Reconnect,
                   Error, Reconnect, Error]"

section \<open>Sample values\<close>

text \<open>
  The messages of the scenarios, and a runtime whose \<^verbatim>\<open>JSON.parse\<close> knows exactly their
  serializations.
\<close>

definition ping_request :: json where
  "ping_request = JObj [(''id'', JNum 1), (''method'', JStr ''ping'')]"

definition slow_request :: json where
  "slow_request = JObj [(''id'', JNum 2), (''method'', JStr ''slow'')]"

definition pong :: json where
  "pong = JObj [(''id'', JNum 1), (''result'', JObj [(''pong'', JBool True)])]"

definition pong_key :: string where
  "pong_key = ''1:'' @ JSON_stringify pong"

definition status_ping :: json where
  "status_ping = JObj [(''status'', JStr ''connected'')]"

definition initialized_notification :: json where
  "initialized_notification = JObj [(''method'', JStr ''notifications/initialized'')]"

definition sample_values :: "json list" where
  "sample_values = [ping_request, slow_request, pong, status_ping, initialized_notification]"

definition sample_parse :: "string \<Rightarrow> json option" where
  "sample_parse s = List.find (\<lambda>v. JSON_stringify v = s) sample_values"

definition sample_runtime :: runtime where
  "sample_runtime =
     \<lparr> JSON_parse = sample_parse,
       URL_with_session = (\<lambda>url s. Some (url @ ''?session_id='' @ s)),
       EventSource_new = (\<lambda>url. True),
       env = (\<lambda>name. None) \<rparr>"

definition sample_stream :: string where
  "sample_stream = encode ping_request @ encode slow_request @ ''{''"

definition sample_connector :: connector where
  "sample_connector = new_connector (JStr ''http://127.0.0.1:3001/sse'') (JStr ''default-api-key'')"

text \<open>
  A schedule on which nothing ever happens, a session token, and a connector that has
  dispatched \<open>ping_request\<close> on an announced session.
\<close>

definition silence :: "nat \<Rightarrow> sse_event list" where
  "silence n = []"

definition sample_uuid :: string where
  "sample_uuid = ''123e4567-e89b-12d3-a456-426614174000''"

definition sample_token :: string where
  "sample_token = ''0123456789abcdef0123456789abcdef''"

definition ready_connector :: connector where
  "ready_connector =
     sample_connector\<lparr>eventSource := True, pendingRequests := pending_set 0 (JNum 1) ping_request [],
                      sessionId := Some sample_token, sessionIdReceived := True\<rparr>"

text \<open>A schedule on which the server announces a new session during the first sleep.\<close>

definition new_session :: "nat \<Rightarrow> sse_event list" where
  "new_session n =
     (if n = 0 then [Endpoint ''/messages?session_id=fedcba9876543210fedcba9876543210''] else [])"

text \<open>A connector that has dispatched \<open>slow_request\<close> and has no session yet.\<close>

definition waiting_connector :: connector where
  "waiting_connector = sample_connector\<lparr>pendingRequests := pending_set 1 (JNum 2) slow_request []\<rparr>"

text \<open>A connector that has dispatched \<open>ping_request\<close>, and one whose cache is full.\<close>

definition tracking_connector :: connector where
  "tracking_connector = sample_connector\<lparr>pendingRequests := pending_set 0 (JNum 1) ping_request []\<rparr>"

definition full_connector :: connector where
  "full_connector = sample_connector\<lparr>processedMessageIds := map decimal [0..<1000]\<rparr>"

section \<open>The tables\<close>

lemma evict_drop: "evict n k xs = drop (n - k) xs"
  by (induction xs arbitrary: k) (auto simp: drop_Cons')

lemma cache_add_new:
  "key \<notin> set ids \<Longrightarrow> cache_add key ids = drop (Suc (length ids) - 1000) (ids @ [key])"
  by (simp add: cache_add_def evict_drop Let_def)

lemma cache_add_length: "length ids \<le> 1000 \<Longrightarrow> length (cache_add key ids) \<le> 1000"
  by (auto simp: cache_add_def evict_drop Let_def)

lemma delete_absent: "map_of al k = None \<Longrightarrow> AList.delete k al = al"
  by (induction al) (auto split: if_splits)

lemma pending_delete_absent: "\<not> pending_has table k \<Longrightarrow> pending_delete k table = table"
  by (auto simp: pending_has_def pending_delete_def delete_absent)

lemma pending_has_delete: "\<not> pending_has (pending_delete k table) k"
  by (auto simp: pending_has_def pending_delete_def AList.delete_conv')

lemma primitive_printable: "primitive i \<Longrightarrow> String_of i \<noteq> None"
  by (cases i) (simp_all add: primitive_def)

lemma pending_has_own_primitive: "primitive i \<Longrightarrow> pending_has_own table a i = pending_has table i"
  by (simp add: pending_has_own_def pending_has_def key_of_def)

lemma pending_has_own_delete: "\<not> pending_has_own (pending_delete_own a i table) a i"
  by (simp add: pending_has_own_def pending_delete_own_def AList.delete_conv')

lemma pending_has_delete_own: "\<not> pending_has (pending_delete_own a i table) i"
  by (auto simp: pending_has_def pending_delete_own_def key_of_def AList.delete_conv')

lemma decimal_digits: "set (decimal n) \<subseteq> set digits \<and> decimal n \<noteq> []"
proof (induction n rule: decimal.induct)
  case (1 n)
  have "n mod 10 < length digits" by (simp add: digits_def)
  then have d: "digits ! (n mod 10) \<in> set digits"
    by (rule nth_mem)
  have eq: "decimal n = (if 10 \<le> n then decimal (n div 10) else []) @ [digits ! (n mod 10)]"
    by (rule decimal.simps)
  show ?case
  proof (cases "10 \<le> n")
    case True
    with 1 have "set (decimal (n div 10)) \<subseteq> set digits" by blast
    with d True show ?thesis by (subst eq, subst eq) simp
  next
    case False
    with d show ?thesis by (subst eq, subst eq) simp
  qed
qed

lemma is_response_id: "is_response data \<Longrightarrow> \<exists>i. property data ''id'' = Some i"
  by (auto simp: is_response_def)

lemma is_response_not_null: "is_response data \<Longrightarrow> data \<noteq> JNull"
  by (auto simp: is_response_def property_def)

lemma stdout_of_append: "stdout_of (xs @ ys) = stdout_of xs @ stdout_of ys"
  by (simp add: stdout_of_def)

lemma stdout_of_debug_log: "stdout_of (debug_log d m) = []"
  by (simp add: debug_log_def stdout_of_def)

section \<open>The branches of the push-message handler\<close>

lemma onmessage_unparsed:
  "JSON_parse rt raw = None \<Longrightarrow> onmessage d rt c raw = (c, [LogError ''Failed to parse SSE message''])"
  by (simp add: onmessage_def)

lemma onmessage_first_draft:
  "JSON_parse rt raw = Some data \<Longrightarrow>
     onmessage Draft1 rt c raw = (c, [Stdout (JSON_stringify data @ [newline])])"
  by (simp add: onmessage_def)

lemma onmessage_null:
  "d \<noteq> Draft1 \<Longrightarrow> JSON_parse rt raw = Some JNull \<Longrightarrow>
     onmessage d rt c raw =
       (c, debug_log d ''[DEBUG-ONMESSAGE] Raw event data'' @ [LogError ''Failed to parse SSE message''])"
  by (simp add: onmessage_def)

lemma onmessage_id_throws:
  "JSON_parse rt raw = Some data \<Longrightarrow> data \<noteq> JNull \<Longrightarrow> id_text data = None \<Longrightarrow>
     onmessage Draft3 rt c raw = (c, [LogError ''Failed to parse SSE message''])"
  by (simp add: onmessage_def)

lemma onmessage_not_response:
  "d \<noteq> Draft1 \<Longrightarrow> JSON_parse rt raw = Some data \<Longrightarrow> data \<noteq> JNull \<Longrightarrow> \<not> is_response data \<Longrightarrow>
   d = Draft3 \<longrightarrow> id_text data \<noteq> None \<Longrightarrow>
     onmessage d rt c raw =
       (c, (if d = Draft2 then [LogInfo ''[DEBUG-ONMESSAGE] Raw event data'']
            else [LogInfo ''[SSE-MESSAGE] Received response''])
           @ [LogInfo ''Received non-RPC message from SSE''])"
  by (auto simp: onmessage_def Let_def split: option.split)

text \<open>A message that is no response changes nothing and is logged, whatever else it is.\<close>

lemma onmessage_not_response_quiet:
  assumes "d \<noteq> Draft1" and "JSON_parse rt raw = Some data" and "\<not> is_response data"
  shows "fst (onmessage d rt c raw) = c \<and> stdout_of (snd (onmessage d rt c raw)) = []
       \<and> logs_of (snd (onmessage d rt c raw)) \<noteq> [] \<and> \<not> exits (snd (onmessage d rt c raw))"
proof (cases "data = JNull")
  case True
  with assms(2) have "JSON_parse rt raw = Some JNull" by simp
  from onmessage_null[OF assms(1) this] show ?thesis
    by (simp add: stdout_of_def logs_of_def exits_def debug_log_def)
next
  case notnull: False
  show ?thesis
  proof (cases "d = Draft3 \<and> id_text data = None")
    case True
    with onmessage_id_throws[OF assms(2) notnull, of c] show ?thesis
      by (simp add: stdout_of_def logs_of_def exits_def)
  next
    case False
    then have "d = Draft3 \<longrightarrow> id_text data \<noteq> None" by auto
    from onmessage_not_response[OF assms(1,2) notnull assms(3) this] show ?thesis
      by (simp add: stdout_of_def logs_of_def exits_def)
  qed
qed

lemma messageKey_Some: "messageKey data = Some key \<Longrightarrow> id_text data \<noteq> None"
  by (auto simp: messageKey_def)

text \<open>A response whose \<^verbatim>\<open>id\<close> cannot be converted.\<close>

lemma onmessage_no_key:
  assumes "d \<noteq> Draft1" and "JSON_parse rt raw = Some data" and "is_response data"
    and "messageKey data = None"
  shows "onmessage d rt c raw =
       (c, debug_log d ''[DEBUG-ONMESSAGE] Raw event data'' @ [LogError ''Failed to parse SSE message''])"
proof -
  from assms(3) obtain i where i: "property data ''id'' = Some i"
    using is_response_id by blast
  have notnull: "data \<noteq> JNull" using assms(3) by (rule is_response_not_null)
  have none: "id_text data = None" using assms(4) by (simp add: messageKey_def)
  show ?thesis
  proof (cases d)
    case Draft1
    with assms(1) show ?thesis by simp
  next
    case Draft2
    show ?thesis
      using assms(2-4) i notnull by (simp add: onmessage_def Draft2 Let_def debug_log_def)
  next
    case Draft3
    show ?thesis
      using onmessage_id_throws[OF assms(2) notnull none] by (simp add: Draft3 debug_log_def)
  qed
qed

lemma onmessage_duplicate:
  "d \<noteq> Draft1 \<Longrightarrow> JSON_parse rt raw = Some data \<Longrightarrow> is_response data \<Longrightarrow>
   messageKey data = Some key \<Longrightarrow> key \<in> set (processedMessageIds c) \<Longrightarrow>
     onmessage d rt c raw =
       (c, (if d = Draft2 then [LogInfo ''[DEBUG-ONMESSAGE] Raw event data'']
            else [LogInfo ''[SSE-MESSAGE] Received response''])
           @ debug_log d ''[DEBUG-DEDUP] Created messageKey''
           @ [LogInfo ''Duplicate message, skipping''])"
  using is_response_id[of data] is_response_not_null[of data] messageKey_Some[of data key]
  by (auto simp: onmessage_def Let_def)

text \<open>
  In the second draft, a new response that meets a table with a key that cannot be
  converted: its key is in the cache, and the handler stops there.
\<close>

lemma onmessage_keys_throw:
  "JSON_parse rt raw = Some data \<Longrightarrow> is_response data \<Longrightarrow>
   messageKey data = Some key \<Longrightarrow> key \<notin> set (processedMessageIds c) \<Longrightarrow>
   \<not> keys_printable (pendingRequests c) \<Longrightarrow>
     onmessage Draft2 rt c raw =
       (c\<lparr>processedMessageIds := cache_add key (processedMessageIds c)\<rparr>,
        [LogInfo ''[DEBUG-ONMESSAGE] Raw event data'', LogInfo ''[DEBUG-DEDUP] Created messageKey'',
         LogInfo ''[DEBUG-DEDUP] Adding messageKey'', LogError ''Failed to parse SSE message''])"
  using is_response_id[of data] is_response_not_null[of data]
  by (auto simp: onmessage_def Let_def debug_log_def)

lemma onmessage_forwarded:
  "d \<noteq> Draft1 \<Longrightarrow> JSON_parse rt raw = Some data \<Longrightarrow> is_response data \<Longrightarrow>
   messageKey data = Some key \<Longrightarrow> key \<notin> set (processedMessageIds c) \<Longrightarrow>
   d = Draft2 \<longrightarrow> keys_printable (pendingRequests c) \<Longrightarrow>
   property data ''id'' = Some i \<Longrightarrow> pending_has (pendingRequests c) i \<Longrightarrow>
     onmessage d rt c raw =
       (c\<lparr>processedMessageIds := cache_add key (processedMessageIds c),
          pendingRequests := pending_delete i (pendingRequests c)\<rparr>,
        (if d = Draft2 then [LogInfo ''[DEBUG-ONMESSAGE] Raw event data'']
         else [LogInfo ''[SSE-MESSAGE] Received response''])
        @ debug_log d ''[DEBUG-DEDUP] Created messageKey''
        @ debug_log d ''[DEBUG-DEDUP] Adding messageKey''
        @ debug_log d ''[DEBUG-SSE] Received response''
        @ [Stdout (JSON_stringify data @ [newline])])"
  using is_response_not_null[of data] messageKey_Some[of data key]
  by (auto simp: onmessage_def Let_def)

lemma onmessage_unmatched:
  "d \<noteq> Draft1 \<Longrightarrow> JSON_parse rt raw = Some data \<Longrightarrow> is_response data \<Longrightarrow>
   messageKey data = Some key \<Longrightarrow> key \<notin> set (processedMessageIds c) \<Longrightarrow>
   d = Draft2 \<longrightarrow> keys_printable (pendingRequests c) \<Longrightarrow>
   property data ''id'' = Some i \<Longrightarrow> \<not> pending_has (pendingRequests c) i \<Longrightarrow>
     onmessage d rt c raw =
       (c\<lparr>processedMessageIds := cache_add key (processedMessageIds c)\<rparr>,
        (if d = Draft2 then [LogInfo ''[DEBUG-ONMESSAGE] Raw event data'']
         else [LogInfo ''[SSE-MESSAGE] Received response''])
        @ debug_log d ''[DEBUG-DEDUP] Created messageKey''
        @ debug_log d ''[DEBUG-DEDUP] Adding messageKey''
        @ debug_log d ''[DEBUG-SSE] Received response''
        @ [LogInfo ''Received response for unmatched request id''])"
  using is_response_not_null[of data] messageKey_Some[of data key]
  by (auto simp: onmessage_def Let_def)

text \<open>
  What a new response does to the cache and to stdout: its key is added, and a line is
  written exactly when its id is in the table and, in the second draft, the keys of the
  table can be listed.
\<close>

lemma onmessage_new_response:
  assumes "d \<noteq> Draft1" and "JSON_parse rt raw = Some data" and "is_response data"
    and "messageKey data = Some key" and "key \<notin> set (processedMessageIds c)"
    and "property data ''id'' = Some i"
  shows "processedMessageIds (fst (onmessage d rt c raw)) = cache_add key (processedMessageIds c)
       \<and> stdout_of (snd (onmessage d rt c raw)) =
           (if pending_has (pendingRequests c) i \<and> (d = Draft2 \<longrightarrow> keys_printable (pendingRequests c))
            then [JSON_stringify data @ [newline]] else [])"
proof (cases "d = Draft2 \<longrightarrow> keys_printable (pendingRequests c)")
  case False
  then have d: "d = Draft2" and bad: "\<not> keys_printable (pendingRequests c)" by blast+
  from onmessage_keys_throw[OF assms(2-5) bad] show ?thesis
    by (simp add: d bad stdout_of_def)
next
  case listed: True
  show ?thesis
  proof (cases "pending_has (pendingRequests c) i")
    case True
    from onmessage_forwarded[OF assms(1-5) listed assms(6) True] listed True show ?thesis
      by (simp add: stdout_of_append stdout_of_debug_log) (simp add: stdout_of_def)
  next
    case False
    from onmessage_unmatched[OF assms(1-5) listed assms(6) False] listed False show ?thesis
      by (simp add: stdout_of_append stdout_of_debug_log) (simp add: stdout_of_def)
  qed
qed

text \<open>The cache after one push message: as it was, or with the key of a new response added.\<close>

lemma onmessage_cache_cases:
  "processedMessageIds (fst (onmessage d rt c raw)) = processedMessageIds c
   \<or> (\<exists>data key. d \<noteq> Draft1 \<and> JSON_parse rt raw = Some data \<and> is_response data
        \<and> messageKey data = Some key \<and> key \<notin> set (processedMessageIds c)
        \<and> processedMessageIds (fst (onmessage d rt c raw)) = cache_add key (processedMessageIds c))"
proof (cases "JSON_parse rt raw")
  case None
  show ?thesis by (simp add: onmessage_unparsed[OF None])
next
  case (Some data)
  show ?thesis
  proof (cases "d = Draft1")
    case True
    show ?thesis using onmessage_first_draft[OF Some] True by simp
  next
    case later: False
    show ?thesis
    proof (cases "is_response data")
      case False
      from onmessage_not_response_quiet[OF later Some False] show ?thesis by simp
    next
      case resp: True
      then obtain i where i: "property data ''id'' = Some i"
        using is_response_id by blast
      show ?thesis
      proof (cases "messageKey data")
        case None
        from onmessage_no_key[OF later Some resp None] show ?thesis by simp
      next
        case (Some key)
        show ?thesis
        proof (cases "key \<in> set (processedMessageIds c)")
          case True
          from onmessage_duplicate[OF later \<open>JSON_parse rt raw = Some data\<close> resp Some True]
          show ?thesis by simp
        next
          case new: False
          from onmessage_new_response[OF later \<open>JSON_parse rt raw = Some data\<close> resp Some new i]
          show ?thesis
            using later \<open>JSON_parse rt raw = Some data\<close> resp Some new by blast
        qed
      qed
    qed
  qed
qed

lemma onmessage_known_key:
  assumes "d \<noteq> Draft1" and "JSON_parse rt raw = Some data" and "messageKey data = Some key"
    and "key \<in> set (processedMessageIds c)"
  shows "stdout_of (snd (onmessage d rt c raw)) = []"
proof (cases "is_response data")
  case True
  from onmessage_duplicate[OF assms(1,2) True assms(3,4)] show ?thesis
    by (simp add: stdout_of_def debug_log_def)
next
  case False
  from onmessage_not_response_quiet[OF assms(1,2) False] show ?thesis by simp
qed

section \<open>The sample values\<close>

lemma parse_pong: "JSON_parse sample_runtime (JSON_stringify pong) = Some pong"
  by code_simp

lemma parse_status_ping: "JSON_parse sample_runtime (JSON_stringify status_ping) = Some status_ping"
  by code_simp

lemma pong_is_response: "is_response pong"
  by code_simp

lemma pong_id: "property pong ''id'' = Some (JNum 1)"
  by code_simp

lemma pong_messageKey: "messageKey pong = Some pong_key"
  by code_simp

lemma status_ping_fields:
  "property status_ping ''id'' = None \<and> property status_ping ''result'' = None
   \<and> property status_ping ''error'' = None"
  by code_simp

lemma sample_connector_fresh:
  "pendingRequests sample_connector = [] \<and> processedMessageIds sample_connector = []"
  by (simp add: sample_connector_def new_connector_def)

lemma tracking_connector_fresh:
  "pending_has (pendingRequests tracking_connector) (JNum 1) \<and> processedMessageIds tracking_connector = []"
  by (simp add: tracking_connector_def sample_connector_def new_connector_def pending_set_def
      pending_has_def primitive_def key_of_def)

lemma full_connector_cache:
  "length (processedMessageIds full_connector) = 1000
   \<and> pong_key \<notin> set (processedMessageIds full_connector)"
proof -
  have colon: "CHR '':'' \<in> set pong_key" by code_simp
  have "CHR '':'' \<notin> set digits" by (simp add: digits_def)
  with decimal_digits have "\<And>n. CHR '':'' \<notin> set (decimal n)" by blast
  with colon have "\<And>n. pong_key \<noteq> decimal n" by metis
  then show ?thesis by (auto simp: full_connector_def sample_connector_def new_connector_def)
qed

section \<open>Claims about the push-message handler\<close>

lemma messageKey_id:
  "property data ''id'' = Some i \<Longrightarrow> (messageKey data = None) = (String_of i = None)"
  by (simp add: messageKey_def id_text_def)

text \<open>
  Claim C3.  In the second and third drafts, a well-formed response whose id is not in the
  Pending-Request Table when it is delivered writes nothing to stdout and the table stays as
  it is.  The handler logs that the id is unmatched or, when the same message was seen
  before, that it is a duplicate; when the id cannot be converted to a string, or in the
  second draft a key of the table cannot, the handler logs the failure of the conversion in
  place of the unmatched id.  Whenever the handler does write, the id was in the table, the
  line written is the serialized response, and the entry is gone afterwards.
\<close>

theorem unmatched_response_never_forwarded:
  assumes "d \<noteq> Draft1"
    and "JSON_parse rt raw = Some data"
    and "is_response data"
    and "property data ''id'' = Some i"
  shows "(\<not> pending_has (pendingRequests c) i \<longrightarrow>
            stdout_of (snd (onmessage d rt c raw)) = []
            \<and> pendingRequests (fst (onmessage d rt c raw)) = pendingRequests c
            \<and> (String_of i \<noteq> None \<and> (d = Draft2 \<longrightarrow> keys_printable (pendingRequests c)) \<longrightarrow>
                 LogInfo ''Received response for unmatched request id'' \<in> set (snd (onmessage d rt c raw))
                 \<or> LogInfo ''Duplicate message, skipping'' \<in> set (snd (onmessage d rt c raw)))
            \<and> (String_of i = None \<or> d = Draft2 \<and> \<not> keys_printable (pendingRequests c) \<longrightarrow>
                 LogError ''Failed to parse SSE message'' \<in> set (snd (onmessage d rt c raw))
                 \<or> LogInfo ''Duplicate message, skipping'' \<in> set (snd (onmessage d rt c raw))))
       \<and> (stdout_of (snd (onmessage d rt c raw)) \<noteq> [] \<longrightarrow>
            pending_has (pendingRequests c) i
            \<and> stdout_of (snd (onmessage d rt c raw)) = [JSON_stringify data @ [newline]]
            \<and> pendingRequests (fst (onmessage d rt c raw)) = pending_delete i (pendingRequests c)
            \<and> \<not> pending_has (pendingRequests (fst (onmessage d rt c raw))) i)"
proof (cases "messageKey data")
  case None
  then have "String_of i = None" using messageKey_id[OF assms(4)] by simp
  with onmessage_no_key[OF assms(1-3) None, of c] show ?thesis
    by (simp add: stdout_of_def debug_log_def)
next
  case (Some key)
  then obtain converted where conv: "String_of i = Some converted"
    using messageKey_id[OF assms(4)] by auto
  show ?thesis
  proof (cases "key \<in> set (processedMessageIds c)")
    case True
    show ?thesis
      by (simp add: onmessage_duplicate[OF assms(1-3) Some True] stdout_of_append stdout_of_debug_log)
         (simp add: stdout_of_def)
  next
    case new: False
    show ?thesis
    proof (cases "d = Draft2 \<longrightarrow> keys_printable (pendingRequests c)")
      case False
      then have d: "d = Draft2" and bad: "\<not> keys_printable (pendingRequests c)" by blast+
      from onmessage_keys_throw[OF assms(2,3) Some new bad] show ?thesis
        by (simp add: d bad stdout_of_def)
    next
      case listed: True
      show ?thesis
      proof (cases "pending_has (pendingRequests c) i")
        case True
        show ?thesis
          by (simp add: onmessage_forwarded[OF assms(1-3) Some new listed assms(4) True] True
                stdout_of_append stdout_of_debug_log pending_has_delete)
             (simp add: stdout_of_def)
      next
        case absent: False
        show ?thesis
          using conv listed
          by (simp add: onmessage_unmatched[OF assms(1-3) Some new listed assms(4) absent] absent
                stdout_of_append stdout_of_debug_log)
             (simp add: stdout_of_def)
      qed
    qed
  qed
qed

theorem unmatched_response_never_forwarded_witness:
  "Draft3 \<noteq> Draft1
   \<and> JSON_parse sample_runtime (JSON_stringify pong) = Some pong
   \<and> is_response pong
   \<and> property pong ''id'' = Some (JNum 1)
   \<and> \<not> pending_has (pendingRequests sample_connector) (JNum 1)
   \<and> stdout_of (snd (onmessage Draft3 sample_runtime sample_connector (JSON_stringify pong))) = []
   \<and> pendingRequests (fst (onmessage Draft3 sample_runtime sample_connector (JSON_stringify pong)))
       = pendingRequests sample_connector
   \<and> (LogInfo ''Received response for unmatched request id''
         \<in> set (snd (onmessage Draft3 sample_runtime sample_connector (JSON_stringify pong)))
       \<or> LogInfo ''Duplicate message, skipping''
         \<in> set (snd (onmessage Draft3 sample_runtime sample_connector (JSON_stringify pong))))"
proof -
  have d: "Draft3 \<noteq> Draft1" by simp
  have absent: "\<not> pending_has (pendingRequests sample_connector) (JNum 1)"
    by (simp add: sample_connector_fresh pending_has_def)
  have conv: "String_of (JNum 1) \<noteq> None \<and> (Draft3 = Draft2 \<longrightarrow> keys_printable (pendingRequests sample_connector))"
    by simp
  from unmatched_response_never_forwarded[OF d parse_pong pong_is_response pong_id, of sample_connector]
    absent conv
  have "stdout_of (snd (onmessage Draft3 sample_runtime sample_connector (JSON_stringify pong))) = []
      \<and> pendingRequests (fst (onmessage Draft3 sample_runtime sample_connector (JSON_stringify pong)))
          = pendingRequests sample_connector
      \<and> (LogInfo ''Received response for unmatched request id''
            \<in> set (snd (onmessage Draft3 sample_runtime sample_connector (JSON_stringify pong)))
          \<or> LogInfo ''Duplicate message, skipping''
            \<in> set (snd (onmessage Draft3 sample_runtime sample_connector (JSON_stringify pong))))"
    by blast
  with d parse_pong pong_is_response pong_id absent show ?thesis by blast
qed

text \<open>
  Claim C4, as amended.  In the second and third drafts, a push message that fails to
  parse, or that parses to a value with neither \<^verbatim>\<open>result\<close> nor \<^verbatim>\<open>error\<close>, or with no \<^verbatim>\<open>id\<close>,
  writes nothing to stdout: the connector is left as it was, a line goes to the log, and the
  handler returns.  (The first draft forwards every message that parses.)
\<close>

theorem non_response_never_forwarded:
  assumes "d \<noteq> Draft1"
    and "JSON_parse rt raw = None \<or>
         (\<exists>data. JSON_parse rt raw = Some data \<and>
            ((property data ''result'' = None \<and> property data ''error'' = None)
             \<or> property data ''id'' = None))"
  shows "stdout_of (snd (onmessage d rt c raw)) = []
       \<and> fst (onmessage d rt c raw) = c
       \<and> logs_of (snd (onmessage d rt c raw)) \<noteq> []
       \<and> \<not> exits (snd (onmessage d rt c raw))"
proof (cases "JSON_parse rt raw")
  case None
  show ?thesis
    by (simp add: onmessage_unparsed[OF None] stdout_of_def logs_of_def exits_def)
next
  case (Some data)
  with assms(2) have bad: "\<not> is_response data"
    by (auto simp: is_response_def)
  from onmessage_not_response_quiet[OF assms(1) Some bad] show ?thesis by simp
qed

theorem non_response_never_forwarded_witness:
  "Draft3 \<noteq> Draft1
   \<and> JSON_parse sample_runtime (JSON_stringify status_ping) = Some status_ping
   \<and> property status_ping ''result'' = None \<and> property status_ping ''error'' = None
   \<and> stdout_of (snd (onmessage Draft3 sample_runtime sample_connector (JSON_stringify status_ping))) = []
   \<and> fst (onmessage Draft3 sample_runtime sample_connector (JSON_stringify status_ping)) = sample_connector"
proof -
  have d: "Draft3 \<noteq> Draft1" by simp
  have "JSON_parse sample_runtime (JSON_stringify status_ping) = None \<or>
         (\<exists>data. JSON_parse sample_runtime (JSON_stringify status_ping) = Some data \<and>
            ((property data ''result'' = None \<and> property data ''error'' = None)
             \<or> property data ''id'' = None))"
    using parse_status_ping status_ping_fields by blast
  from non_response_never_forwarded[OF d this, of sample_connector]
  have "stdout_of (snd (onmessage Draft3 sample_runtime sample_connector (JSON_stringify status_ping))) = []
      \<and> fst (onmessage Draft3 sample_runtime sample_connector (JSON_stringify status_ping)) = sample_connector"
    by blast
  with d parse_status_ping status_ping_fields show ?thesis by blast
qed

text \<open>
  The first draft writes the status ping of the spec's scenario to stdout, although it has
  no \<^verbatim>\<open>id\<close>, no \<^verbatim>\<open>result\<close> and no \<^verbatim>\<open>error\<close>.
\<close>

theorem first_draft_forwards_status_ping:
  "JSON_parse sample_runtime (JSON_stringify status_ping) = Some status_ping
   \<and> property status_ping ''id'' = None
   \<and> property status_ping ''result'' = None
   \<and> property status_ping ''error'' = None
   \<and> stdout_of (snd (onmessage Draft1 sample_runtime sample_connector (JSON_stringify status_ping)))
       = [JSON_stringify status_ping @ [newline]]"
  using parse_status_ping status_ping_fields
  by (simp add: onmessage_first_draft[OF parse_status_ping] stdout_of_def)

text \<open>
  Claim C9.  A cache of at most 1000 fingerprints still holds at most 1000 after any push
  message, in every draft.  In the second and third drafts a well-formed response whose key
  is not in the cache has its key added at the end; when the cache already held 1000 keys
  its first key, the one inserted longest ago, is dropped to make room, so that the 1000
  most recent keys remain.  Every other message, and every message in the first draft,
  leaves the cache as it was.
\<close>

theorem cache_never_exceeds_bound:
  assumes "length (processedMessageIds c) \<le> 1000"
  shows "length (processedMessageIds (fst (onmessage d rt c raw))) \<le> 1000
       \<and> (\<forall>data key. d \<noteq> Draft1 \<and> JSON_parse rt raw = Some data \<and> is_response data
                 \<and> messageKey data = Some key \<and> key \<notin> set (processedMessageIds c) \<longrightarrow>
            processedMessageIds (fst (onmessage d rt c raw)) =
              (if length (processedMessageIds c) < 1000
               then processedMessageIds c @ [key]
               else tl (processedMessageIds c) @ [key]))
       \<and> (d = Draft1
            \<or> (\<forall>data key. JSON_parse rt raw = Some data \<and> is_response data \<and> messageKey data = Some key
                  \<longrightarrow> key \<in> set (processedMessageIds c)) \<longrightarrow>
            processedMessageIds (fst (onmessage d rt c raw)) = processedMessageIds c)"
proof (intro conjI allI impI)
  show "length (processedMessageIds (fst (onmessage d rt c raw))) \<le> 1000"
    using onmessage_cache_cases[of d rt c raw] assms cache_add_length[OF assms] by auto
next
  fix data key
  assume a: "d \<noteq> Draft1 \<and> JSON_parse rt raw = Some data \<and> is_response data
                 \<and> messageKey data = Some key \<and> key \<notin> set (processedMessageIds c)"
  then obtain i where i: "property data ''id'' = Some i"
    using is_response_id by blast
  have "processedMessageIds (fst (onmessage d rt c raw)) = cache_add key (processedMessageIds c)"
    using onmessage_new_response[of d rt raw data key c i] a i by blast
  also have "\<dots> = drop (Suc (length (processedMessageIds c)) - 1000) (processedMessageIds c @ [key])"
    using a by (simp add: cache_add_new)
  also have "\<dots> = (if length (processedMessageIds c) < 1000
               then processedMessageIds c @ [key]
               else tl (processedMessageIds c) @ [key])"
  proof (cases "length (processedMessageIds c) < 1000")
    case True
    then show ?thesis by simp
  next
    case False
    with assms have full: "length (processedMessageIds c) = 1000" by simp
    then have "processedMessageIds c \<noteq> []" by auto
    with full show ?thesis by (simp add: drop_Suc tl_append2 del: drop_append)
  qed
  finally show "processedMessageIds (fst (onmessage d rt c raw)) =
              (if length (processedMessageIds c) < 1000
               then processedMessageIds c @ [key]
               else tl (processedMessageIds c) @ [key])" .
next
  assume a: "d = Draft1
            \<or> (\<forall>data key. JSON_parse rt raw = Some data \<and> is_response data \<and> messageKey data = Some key
                  \<longrightarrow> key \<in> set (processedMessageIds c))"
  from onmessage_cache_cases[of d rt c raw]
  show "processedMessageIds (fst (onmessage d rt c raw)) = processedMessageIds c"
  proof
    assume "processedMessageIds (fst (onmessage d rt c raw)) = processedMessageIds c"
    then show ?thesis .
  next
    assume "\<exists>data key. d \<noteq> Draft1 \<and> JSON_parse rt raw = Some data \<and> is_response data
        \<and> messageKey data = Some key \<and> key \<notin> set (processedMessageIds c)
        \<and> processedMessageIds (fst (onmessage d rt c raw)) = cache_add key (processedMessageIds c)"
    with a show ?thesis by blast
  qed
qed

text \<open>
  A response arrives at a cache that holds 1000 keys: the oldest key leaves and the key of
  the response is the newest.
\<close>

theorem cache_never_exceeds_bound_witness:
  "length (processedMessageIds full_connector) = 1000
   \<and> JSON_parse sample_runtime (JSON_stringify pong) = Some pong
   \<and> is_response pong
   \<and> messageKey pong = Some pong_key
   \<and> pong_key \<notin> set (processedMessageIds full_connector)
   \<and> length (processedMessageIds (fst (onmessage Draft3 sample_runtime full_connector (JSON_stringify pong)))) \<le> 1000
   \<and> processedMessageIds (fst (onmessage Draft3 sample_runtime full_connector (JSON_stringify pong)))
       = tl (processedMessageIds full_connector) @ [pong_key]"
proof -
  have full: "length (processedMessageIds full_connector) \<le> 1000"
    using full_connector_cache by simp
  have d: "Draft3 \<noteq> Draft1" by simp
  from cache_never_exceeds_bound[OF full, of Draft3 sample_runtime "JSON_stringify pong"]
    d parse_pong pong_is_response pong_messageKey full_connector_cache
  have "length (processedMessageIds (fst (onmessage Draft3 sample_runtime full_connector (JSON_stringify pong)))) \<le> 1000
      \<and> processedMessageIds (fst (onmessage Draft3 sample_runtime full_connector (JSON_stringify pong)))
          = (if length (processedMessageIds full_connector) < 1000
             then processedMessageIds full_connector @ [pong_key]
             else tl (processedMessageIds full_connector) @ [pong_key])"
    by blast
  with parse_pong pong_is_response pong_messageKey full_connector_cache show ?thesis by simp
qed

section \<open>Duplicate deliveries\<close>

lemma recent_mem: "recent n key ids \<Longrightarrow> key \<in> set ids"
  by (auto simp: recent_def)

lemma recent_mono: "recent n key ids \<Longrightarrow> recent (Suc n) key ids"
  by (auto simp: recent_def intro: less_SucI)

lemma recent_after_add:
  assumes "recent n key ids" and "n < 1000"
  shows "recent (Suc n) key (drop (Suc (length ids) - 1000) (ids @ [key']))"
proof -
  from assms(1) obtain older newer where ids: "ids = older @ key # newer" and short: "length newer < n"
    by (auto simp: recent_def)
  let ?m = "Suc (length ids) - 1000"
  have "?m \<le> length older" using ids short assms(2) by simp
  then have "drop ?m (ids @ [key']) = drop ?m older @ key # (newer @ [key'])"
    using ids by simp
  moreover have "length (newer @ [key']) < Suc n" using short by simp
  ultimately show ?thesis unfolding recent_def by blast
qed

lemma recent_first: "key \<notin> set ids \<Longrightarrow> recent 1 key (cache_add key ids)"
proof -
  assume "key \<notin> set ids"
  then have "cache_add key ids = drop (Suc (length ids) - 1000) ids @ [key]"
    by (simp add: cache_add_new)
  then show ?thesis unfolding recent_def by auto
qed

lemma recent_step:
  assumes "recent n key (processedMessageIds c)" and "n < 1000"
  shows "recent (Suc n) key (processedMessageIds (fst (onmessage d rt c raw)))"
  using onmessage_cache_cases[of d rt c raw]
proof
  assume "processedMessageIds (fst (onmessage d rt c raw)) = processedMessageIds c"
  with assms(1) show ?thesis by (simp add: recent_mono)
next
  assume "\<exists>data key. d \<noteq> Draft1 \<and> JSON_parse rt raw = Some data \<and> is_response data
        \<and> messageKey data = Some key \<and> key \<notin> set (processedMessageIds c)
        \<and> processedMessageIds (fst (onmessage d rt c raw)) = cache_add key (processedMessageIds c)"
  then obtain key' where new: "key' \<notin> set (processedMessageIds c)"
    and eq: "processedMessageIds (fst (onmessage d rt c raw)) = cache_add key' (processedMessageIds c)"
    by blast
  show ?thesis
    unfolding eq cache_add_new[OF new] using assms by (rule recent_after_add)
qed

text \<open>
  While a key is recent, no delivery with that fingerprint writes to stdout.
\<close>

lemma later_deliveries_discarded:
  "d \<noteq> Draft1 \<Longrightarrow> recent n key (processedMessageIds c) \<Longrightarrow> n + length raws \<le> 1000 \<Longrightarrow>
     filter (\<lambda>(raw, written). fingerprint rt raw = Some key \<and> written \<noteq> []) (deliveries d rt c raws) = []"
proof (induction raws arbitrary: c n)
  case Nil
  show ?case by simp
next
  case (Cons raw raws)
  obtain c1 fx where step: "onmessage d rt c raw = (c1, fx)" by (cases "onmessage d rt c raw")
  have n: "n < 1000" using Cons.prems(3) by simp
  have "recent (Suc n) key (processedMessageIds c1)"
    using recent_step[OF Cons.prems(2) n, of d rt raw] step by simp
  moreover have "Suc n + length raws \<le> 1000" using Cons.prems(3) by simp
  ultimately have rest: "filter (\<lambda>(raw, written). fingerprint rt raw = Some key \<and> written \<noteq> [])
      (deliveries d rt c1 raws) = []"
    using Cons.IH[OF Cons.prems(1)] by blast
  have "fingerprint rt raw = Some key \<Longrightarrow> stdout_of fx = []"
  proof -
    assume "fingerprint rt raw = Some key"
    then obtain data where "JSON_parse rt raw = Some data" and "messageKey data = Some key"
      by (auto simp: fingerprint_def split: option.splits)
    with onmessage_known_key[OF Cons.prems(1), of rt raw data key c] recent_mem[OF Cons.prems(2)] step
    show ?thesis by simp
  qed
  with rest step show ?case by auto
qed

text \<open>
  Claim C2, as amended.  In the second and third drafts, take a well-formed response whose
  fingerprint is not in the duplicate cache, and deliver it followed by fewer than 1000
  further push messages, among them any number of copies of it.  Then the number of
  deliveries with that fingerprint that write to stdout is one if the response's id is in
  the Pending-Request Table when the first copy arrives (and, in the second draft, the keys
  of the table can be listed in its log line), and zero otherwise; in either case every
  later copy is discarded.
\<close>

theorem one_forward_when_pending:
  assumes "d \<noteq> Draft1"
    and "JSON_parse rt raw = Some data"
    and "is_response data"
    and "property data ''id'' = Some i"
    and "messageKey data = Some key"
    and "key \<notin> set (processedMessageIds c)"
    and "length later < 1000"
  shows "forwarded_copies d rt c (raw # later) key =
           (if pending_has (pendingRequests c) i \<and> (d = Draft2 \<longrightarrow> keys_printable (pendingRequests c))
            then 1 else 0)"
proof -
  obtain c1 fx where step: "onmessage d rt c raw = (c1, fx)" by (cases "onmessage d rt c raw")
  have fp: "fingerprint rt raw = Some key"
    using assms(2,5) by (simp add: fingerprint_def)
  from onmessage_new_response[OF assms(1-3,5,6,4)] step
  have cache: "processedMessageIds c1 = cache_add key (processedMessageIds c)"
    and out: "stdout_of fx =
           (if pending_has (pendingRequests c) i \<and> (d = Draft2 \<longrightarrow> keys_printable (pendingRequests c))
            then [JSON_stringify data @ [newline]] else [])"
    by simp_all
  have "recent 1 key (processedMessageIds c1)"
    unfolding cache using assms(6) by (rule recent_first)
  moreover have "1 + length later \<le> 1000" using assms(7) by simp
  ultimately have "filter (\<lambda>(raw, written). fingerprint rt raw = Some key \<and> written \<noteq> [])
      (deliveries d rt c1 later) = []"
    using later_deliveries_discarded[OF assms(1)] by blast
  then show ?thesis
    using step fp out by (simp add: forwarded_copies_def)
qed

text \<open>
  The scenario of the spec: \<open>ping_request\<close> is pending and \<open>pong\<close> arrives twice; one copy is
  forwarded.
\<close>

theorem one_forward_when_pending_witness:
  "Draft3 \<noteq> Draft1
   \<and> JSON_parse sample_runtime (JSON_stringify pong) = Some pong
   \<and> is_response pong
   \<and> property pong ''id'' = Some (JNum 1)
   \<and> messageKey pong = Some pong_key
   \<and> pong_key \<notin> set (processedMessageIds tracking_connector)
   \<and> length [JSON_stringify pong] < 1000
   \<and> pending_has (pendingRequests tracking_connector) (JNum 1)
   \<and> forwarded_copies Draft3 sample_runtime tracking_connector
        [JSON_stringify pong, JSON_stringify pong] pong_key = 1"
proof -
  have d: "Draft3 \<noteq> Draft1" by simp
  have new: "pong_key \<notin> set (processedMessageIds tracking_connector)"
    by (simp add: tracking_connector_fresh)
  have short: "length [JSON_stringify pong] < 1000" by simp
  have pending: "pending_has (pendingRequests tracking_connector) (JNum 1)"
    by (simp add: tracking_connector_fresh)
  have "forwarded_copies Draft3 sample_runtime tracking_connector
        (JSON_stringify pong # [JSON_stringify pong]) pong_key =
        (if pending_has (pendingRequests tracking_connector) (JNum 1)
            \<and> (Draft3 = Draft2 \<longrightarrow> keys_printable (pendingRequests tracking_connector))
         then 1 else 0)"
    by (rule one_forward_when_pending[OF d parse_pong pong_is_response pong_id pong_messageKey new short])
  then have "forwarded_copies Draft3 sample_runtime tracking_connector
        [JSON_stringify pong, JSON_stringify pong] pong_key = 1"
    using pending by simp
  with d parse_pong pong_is_response pong_id pong_messageKey new short pending show ?thesis by blast
qed

text \<open>
  With an empty Pending-Request Table the same two deliveries forward no copy, so ``exactly
  one'' fails as the claim states it.
\<close>

theorem no_forward_when_not_pending:
  "JSON_parse sample_runtime (JSON_stringify pong) = Some pong
   \<and> is_response pong
   \<and> messageKey pong = Some pong_key
   \<and> processedMessageIds sample_connector = []
   \<and> pendingRequests sample_connector = []
   \<and> forwarded_copies Draft3 sample_runtime sample_connector
        [JSON_stringify pong, JSON_stringify pong] pong_key = 0"
  by code_simp

section \<open>Failure and reconnection\<close>

lemma onerror_retry:
  "shouldReconnect c \<Longrightarrow> retryCount c < 5 \<Longrightarrow>
     onerror d c =
       (c\<lparr>eventSource := False, retryCount := Suc (retryCount c)\<rparr>,
        [LogError ''SSE connection error'']
          @ (if eventSource c then [Close] else [])
          @ [LogInfo ''Reconnecting'', SetTimeout (1000 * 2 ^ retryCount c)])"
  by (simp add: onerror_def Let_def MAX_RETRIES_def retry_delay_def RETRY_DELAY_MS_def debug_log_def)

lemma onerror_give_up:
  "shouldReconnect c \<Longrightarrow> 5 \<le> retryCount c \<Longrightarrow>
     onerror d c =
       (c\<lparr>eventSource := False, shouldReconnect := False\<rparr>,
        [LogError ''SSE connection error'']
          @ (if eventSource c then [Close] else [])
          @ [LogError ''Failed to connect after 5 attempts. Giving up.'']
          @ (if d = Draft1 then [Exit 1] else []))"
  by (simp add: onerror_def Let_def MAX_RETRIES_def debug_log_def)

lemma connectSSE_connected:
  "String_of (serverUrl c) = Some url \<Longrightarrow> String_of (apiToken c) \<noteq> None \<Longrightarrow> EventSource_new rt url \<Longrightarrow>
     connectSSE d rt c =
       (c\<lparr>eventSource := True\<rparr>,
        (if eventSource c then [Close] else []) @ [LogInfo ''Connecting to SSE endpoint'', Connect url])"
  by (simp add: connectSSE_def Let_def)

lemma timeouts_of_append: "timeouts_of (xs @ ys) = timeouts_of xs @ timeouts_of ys"
  by (simp add: timeouts_of_def)

lemma exits_append: "exits (xs @ ys) = (exits xs \<or> exits ys)"
  by (simp add: exits_def)

lemma exits_debug_log: "\<not> exits (debug_log d m)"
  by (simp add: exits_def debug_log_def)

lemma timeouts_of_debug_log: "timeouts_of (debug_log d m) = []"
  by (simp add: timeouts_of_def debug_log_def)

lemma sse_run_step:
  "sse_step d rt c e = (c1, fx1) \<Longrightarrow> \<not> exits fx1 \<Longrightarrow>
     sse_run d rt c (e # es) = (fst (sse_run d rt c1 es), fx1 @ snd (sse_run d rt c1 es))"
  by (simp split: prod.split)

text \<open>One failed attempt: the error and the reconnect that follows it.\<close>

lemma failed_attempt:
  assumes "shouldReconnect c" and "retryCount c < 5"
    and "String_of (serverUrl c) = Some url" and "String_of (apiToken c) \<noteq> None"
    and "EventSource_new rt url"
  shows "\<exists>c1 fx. sse_run d rt c (Error # Reconnect # es) =
           (fst (sse_run d rt c1 es), fx @ snd (sse_run d rt c1 es))
         \<and> shouldReconnect c1 \<and> retryCount c1 = Suc (retryCount c) \<and> serverUrl c1 = serverUrl c
         \<and> apiToken c1 = apiToken c
         \<and> timeouts_of fx = [1000 * 2 ^ retryCount c] \<and> \<not> exits fx"
proof -
  let ?c0 = "c\<lparr>eventSource := False, retryCount := Suc (retryCount c)\<rparr>"
  let ?fx0 = "[LogError ''SSE connection error'']
          @ (if eventSource c then [Close] else [])
          @ [LogInfo ''Reconnecting'', SetTimeout (1000 * 2 ^ retryCount c)]"
  let ?c1 = "?c0\<lparr>eventSource := True\<rparr>"
  let ?fx1 = "(if eventSource ?c0 then [Close] else []) @ [LogInfo ''Connecting to SSE endpoint'',
          Connect url]"
  have e0: "\<not> exits ?fx0" by (simp add: exits_append exits_debug_log) (simp add: exits_def)
  have e1: "\<not> exits ?fx1" by (simp add: exits_def)
  have "sse_step d rt c Error = (?c0, ?fx0)"
    using assms(1,2) by (simp add: sse_step_def onerror_retry)
  from sse_run_step[OF this e0]
  have first: "sse_run d rt c (Error # Reconnect # es) =
      (fst (sse_run d rt ?c0 (Reconnect # es)), ?fx0 @ snd (sse_run d rt ?c0 (Reconnect # es)))" .
  have "String_of (serverUrl ?c0) = Some url" "String_of (apiToken ?c0) \<noteq> None"
    using assms(3,4) by simp_all
  then have "sse_step d rt ?c0 Reconnect = (?c1, ?fx1)"
    using assms(5) by (simp add: sse_step_def connectSSE_connected)
  from sse_run_step[OF this e1]
  have second: "sse_run d rt ?c0 (Reconnect # es) =
      (fst (sse_run d rt ?c1 es), ?fx1 @ snd (sse_run d rt ?c1 es))" .
  have run: "sse_run d rt c (Error # Reconnect # es) =
      (fst (sse_run d rt ?c1 es), (?fx0 @ ?fx1) @ snd (sse_run d rt ?c1 es))"
    unfolding first second by simp
  have t: "timeouts_of (?fx0 @ ?fx1) = [1000 * 2 ^ retryCount c]"
    by (simp add: timeouts_of_append timeouts_of_debug_log) (simp add: timeouts_of_def)
  have e: "\<not> exits (?fx0 @ ?fx1)"
    using e0 e1 by (simp only: exits_append) simp
  show ?thesis
    using run t e assms(1) by (intro exI[of _ ?c1] exI[of _ "?fx0 @ ?fx1"]) simp
qed

text \<open>Five failed attempts and the error that ends the sixth.\<close>

lemma six_failures_run:
  assumes "shouldReconnect c"
    and "retryCount c = 0"
    and "String_of (serverUrl c) = Some url"
    and "String_of (apiToken c) \<noteq> None"
    and "EventSource_new rt url"
  shows "\<exists>c5 fx. sse_run d rt c six_failures =
           (c5\<lparr>eventSource := False, shouldReconnect := False\<rparr>,
            fx @ [LogError ''Failed to connect after 5 attempts. Giving up.'']
               @ (if d = Draft1 then [Exit 1] else []))
         \<and> timeouts_of fx = [1000, 2000, 4000, 8000, 16000] \<and> \<not> exits fx"
proof -
  obtain c1 fx1 where r1: "sse_run d rt c six_failures =
        (fst (sse_run d rt c1 (drop 2 six_failures)), fx1 @ snd (sse_run d rt c1 (drop 2 six_failures)))"
      and s1: "shouldReconnect c1" "retryCount c1 = 1" "serverUrl c1 = serverUrl c" "apiToken c1 = apiToken c"
      and t1: "timeouts_of fx1 = [1000]"
      and e1: "\<not> exits fx1"
    using failed_attempt[of c url rt d "drop 2 six_failures"] assms by (auto simp: six_failures_def)
  obtain c2 fx2 where r2: "sse_run d rt c1 (drop 2 six_failures) =
        (fst (sse_run d rt c2 (drop 4 six_failures)), fx2 @ snd (sse_run d rt c2 (drop 4 six_failures)))"
      and s2: "shouldReconnect c2" "retryCount c2 = 2" "serverUrl c2 = serverUrl c" "apiToken c2 = apiToken c"
      and t2: "timeouts_of fx2 = [2000]"
      and e2: "\<not> exits fx2"
    using failed_attempt[of c1 url rt d "drop 4 six_failures"] assms(3-5) s1 by (auto simp: six_failures_def)
  obtain c3 fx3 where r3: "sse_run d rt c2 (drop 4 six_failures) =
        (fst (sse_run d rt c3 (drop 6 six_failures)), fx3 @ snd (sse_run d rt c3 (drop 6 six_failures)))"
      and s3: "shouldReconnect c3" "retryCount c3 = 3" "serverUrl c3 = serverUrl c" "apiToken c3 = apiToken c"
      and t3: "timeouts_of fx3 = [4000]"
      and e3: "\<not> exits fx3"
    using failed_attempt[of c2 url rt d "drop 6 six_failures"] assms(3-5) s2 by (auto simp: six_failures_def)
  obtain c4 fx4 where r4: "sse_run d rt c3 (drop 6 six_failures) =
        (fst (sse_run d rt c4 (drop 8 six_failures)), fx4 @ snd (sse_run d rt c4 (drop 8 six_failures)))"
      and s4: "shouldReconnect c4" "retryCount c4 = 4" "serverUrl c4 = serverUrl c" "apiToken c4 = apiToken c"
      and t4: "timeouts_of fx4 = [8000]"
      and e4: "\<not> exits fx4"
    using failed_attempt[of c3 url rt d "drop 8 six_failures"] assms(3-5) s3 by (auto simp: six_failures_def)
  obtain c5 fx5 where r5: "sse_run d rt c4 (drop 8 six_failures) =
        (fst (sse_run d rt c5 (drop 10 six_failures)), fx5 @ snd (sse_run d rt c5 (drop 10 six_failures)))"
      and s5: "shouldReconnect c5" "retryCount c5 = 5" "serverUrl c5 = serverUrl c" "apiToken c5 = apiToken c"
      and t5: "timeouts_of fx5 = [16000]"
      and e5: "\<not> exits fx5"
    using failed_attempt[of c4 url rt d "drop 10 six_failures"] assms(3-5) s4 by (auto simp: six_failures_def)
  let ?heard = "[LogError ''SSE connection error'']
          @ (if eventSource c5 then [Close] else [])"
  have last: "sse_run d rt c5 (drop 10 six_failures) = onerror d c5"
    by (simp add: six_failures_def sse_step_def split: prod.split)
  have gave_up: "onerror d c5 =
       (c5\<lparr>eventSource := False, shouldReconnect := False\<rparr>,
        ?heard @ [LogError ''Failed to connect after 5 attempts. Giving up.'']
          @ (if d = Draft1 then [Exit 1] else []))"
    using s5 by (simp add: onerror_give_up)
  have whole: "sse_run d rt c six_failures =
      (c5\<lparr>eventSource := False, shouldReconnect := False\<rparr>,
       (fx1 @ fx2 @ fx3 @ fx4 @ fx5 @ ?heard) @ [LogError ''Failed to connect after 5 attempts. Giving up.'']
          @ (if d = Draft1 then [Exit 1] else []))"
    by (simp add: r1 r2 r3 r4 r5 last gave_up)
  have h: "timeouts_of ?heard = [] \<and> \<not> exits ?heard"
    by (simp add: timeouts_of_append timeouts_of_debug_log exits_append exits_debug_log)
       (simp add: timeouts_of_def exits_def)
  have "timeouts_of (fx1 @ fx2 @ fx3 @ fx4 @ fx5 @ ?heard) = [1000, 2000, 4000, 8000, 16000]"
    using h by (simp only: timeouts_of_append t1 t2 t3 t4 t5) simp
  moreover have "\<not> exits (fx1 @ fx2 @ fx3 @ fx4 @ fx5 @ ?heard)"
    using h e1 e2 e3 e4 e5 by (simp only: exits_append) simp
  ultimately show ?thesis using whole by blast
qed

text \<open>
  Claim C6, as amended.  Start from a connector that wants to reconnect and has counted no
  failure, whose \<^verbatim>\<open>serverUrl\<close> and \<^verbatim>\<open>apiToken\<close> can be written into the log line and the header
  and for whose address \<^verbatim>\<open>new EventSource\<close> returns, and let six connection attempts in a row
  end in an error event.  The reconnect timers are set to
  1000, 2000, 4000, 8000 and 16000 ms, in this order, so the delays double from one second,
  never decrease and stay within \<open>retry_delay MAX_RETRIES\<close>.  The sixth failure sets no
  timer: the connector logs that it gives up and stops reconnecting.  Only the first draft
  then exits, with status 1; the second and third drafts do not exit.
\<close>

theorem backoff_then_give_up:
  assumes "shouldReconnect c"
    and "retryCount c = 0"
    and "String_of (serverUrl c) = Some url"
    and "String_of (apiToken c) \<noteq> None"
    and "EventSource_new rt url"
  shows "timeouts_of (snd (sse_run d rt c six_failures)) = [1000, 2000, 4000, 8000, 16000]
       \<and> sorted (timeouts_of (snd (sse_run d rt c six_failures)))
       \<and> list_all (\<lambda>ms. ms \<le> retry_delay MAX_RETRIES) (timeouts_of (snd (sse_run d rt c six_failures)))
       \<and> \<not> shouldReconnect (fst (sse_run d rt c six_failures))
       \<and> LogError ''Failed to connect after 5 attempts. Giving up.'' \<in> set (snd (sse_run d rt c six_failures))
       \<and> exits (snd (sse_run d rt c six_failures)) = (d = Draft1)"
proof -
  from six_failures_run[OF assms, of d] obtain c5 fx
    where run: "sse_run d rt c six_failures =
           (c5\<lparr>eventSource := False, shouldReconnect := False\<rparr>,
            fx @ [LogError ''Failed to connect after 5 attempts. Giving up.'']
               @ (if d = Draft1 then [Exit 1] else []))"
      and t: "timeouts_of fx = [1000, 2000, 4000, 8000, 16000]" and e: "\<not> exits fx"
    by blast
  have times: "timeouts_of (snd (sse_run d rt c six_failures)) = [1000, 2000, 4000, 8000, 16000]"
    by (simp add: run timeouts_of_append t) (simp add: timeouts_of_def)
  have ex: "exits (snd (sse_run d rt c six_failures)) = (d = Draft1)"
    by (simp add: run exits_append e) (simp add: exits_def)
  show ?thesis
    unfolding times using ex
    by (simp add: run retry_delay_def MAX_RETRIES_def RETRY_DELAY_MS_def)
qed

lemma sample_connector_ready:
  "shouldReconnect sample_connector \<and> retryCount sample_connector = 0
   \<and> String_of (serverUrl sample_connector) = Some ''http://127.0.0.1:3001/sse''
   \<and> String_of (apiToken sample_connector) \<noteq> None
   \<and> EventSource_new sample_runtime ''http://127.0.0.1:3001/sse''"
  by (simp add: sample_connector_def new_connector_def sample_runtime_def)

theorem backoff_then_give_up_witness:
  "shouldReconnect sample_connector
   \<and> retryCount sample_connector = 0
   \<and> String_of (serverUrl sample_connector) = Some ''http://127.0.0.1:3001/sse''
   \<and> String_of (apiToken sample_connector) \<noteq> None
   \<and> EventSource_new sample_runtime ''http://127.0.0.1:3001/sse''
   \<and> timeouts_of (snd (sse_run Draft1 sample_runtime sample_connector six_failures))
       = [1000, 2000, 4000, 8000, 16000]
   \<and> \<not> shouldReconnect (fst (sse_run Draft1 sample_runtime sample_connector six_failures))
   \<and> exits (snd (sse_run Draft1 sample_runtime sample_connector six_failures))"
proof -
  have h1: "shouldReconnect sample_connector"
    and h2: "retryCount sample_connector = 0"
    and h3: "String_of (serverUrl sample_connector) = Some ''http://127.0.0.1:3001/sse''"
    and h4: "String_of (apiToken sample_connector) \<noteq> None"
    and h5: "EventSource_new sample_runtime ''http://127.0.0.1:3001/sse''"
    using sample_connector_ready by blast+
  from backoff_then_give_up[OF h1 h2 h3 h4 h5, of Draft1]
  have "timeouts_of (snd (sse_run Draft1 sample_runtime sample_connector six_failures))
       = [1000, 2000, 4000, 8000, 16000]
     \<and> \<not> shouldReconnect (fst (sse_run Draft1 sample_runtime sample_connector six_failures))
     \<and> exits (snd (sse_run Draft1 sample_runtime sample_connector six_failures))"
    by blast
  with h1 h2 h3 h4 h5 show ?thesis by blast
qed

text \<open>
  In the second draft the sixth failure in a row leaves the process running: no
  \<^verbatim>\<open>process.exit\<close> is among the effects.
\<close>

theorem second_draft_gives_up_without_exit:
  "shouldReconnect sample_connector
   \<and> retryCount sample_connector = 0
   \<and> \<not> shouldReconnect (fst (sse_run Draft2 sample_runtime sample_connector six_failures))
   \<and> \<not> exits (snd (sse_run Draft2 sample_runtime sample_connector six_failures))"
proof -
  have h1: "shouldReconnect sample_connector"
    and h2: "retryCount sample_connector = 0"
    and h3: "String_of (serverUrl sample_connector) = Some ''http://127.0.0.1:3001/sse''"
    and h4: "String_of (apiToken sample_connector) \<noteq> None"
    and h5: "EventSource_new sample_runtime ''http://127.0.0.1:3001/sse''"
    using sample_connector_ready by blast+
  from six_failures_run[OF h1 h2 h3 h4 h5, of Draft2] obtain c5 fx
    where run: "sse_run Draft2 sample_runtime sample_connector six_failures =
           (c5\<lparr>eventSource := False, shouldReconnect := False\<rparr>,
            fx @ [LogError ''Failed to connect after 5 attempts. Giving up.''])"
      and e: "\<not> exits fx"
    by auto
  have "\<not> exits (snd (sse_run Draft2 sample_runtime sample_connector six_failures))"
    by (simp add: run exits_append e) (simp add: exits_def)
  moreover have "\<not> shouldReconnect (fst (sse_run Draft2 sample_runtime sample_connector six_failures))"
    by (simp add: run)
  ultimately show ?thesis using h1 h2 by blast
qed

section \<open>Requests before initialization\<close>

lemma handle_request_not_initialized:
  assumes "\<not> isInitialized m"
    and "request \<noteq> JNull"
    and "property request ''method'' \<noteq> Some (JStr ''initialize'')"
  shows "handle_request d rt m a request =
           (m, [Inl (Stdout (JSON_stringify (not_initialized_error (property request ''id'') None) @ [newline]))])"
  using assms by (simp add: handle_request_def)

text \<open>
  Claim C10.  While \<^verbatim>\<open>isInitialized\<close> is false, let the loop handle any requests, none of them
  \<^verbatim>\<open>null\<close> and none with the method \<^verbatim>\<open>"initialize"\<close>.  Each of them gets exactly one line on
  stdout, in order: the JSON-RPC error object with the request's id (left out when the
  request has none), code -32002 and message ``Server not initialized''.  No call of
  \<^verbatim>\<open>sendRequest\<close> is started for any of them and the state is unchanged.  This holds in all
  three drafts.
\<close>

theorem not_initialized_is_answered_locally:
  assumes "\<not> isInitialized m"
    and "\<forall>request \<in> set requests.
           request \<noteq> JNull \<and> property request ''method'' \<noteq> Some (JStr ''initialize'')"
  shows "handle_lines d rt m a (map Some requests) =
           (m, map (\<lambda>request. Inl (Stdout (JSON_stringify
                  (JObj ([(''jsonrpc'', JStr ''2.0'')]
                         @ (case property request ''id'' of None \<Rightarrow> [] | Some i \<Rightarrow> [(''id'', i)])
                         @ [(''error'', JObj [(''code'', JNum (- 32002)),
                                             (''message'', JStr ''Server not initialized'')])]))
                @ [newline]))) requests)"
  using assms(2)
proof (induction requests arbitrary: a)
  case Nil
  show ?case by simp
next
  case (Cons request requests)
  have "request \<noteq> JNull" and "property request ''method'' \<noteq> Some (JStr ''initialize'')"
    using Cons.prems by simp_all
  from handle_request_not_initialized[OF assms(1) this]
  have one: "handle_request d rt m a request =
      (m, [Inl (Stdout (JSON_stringify (not_initialized_error (property request ''id'') None) @ [newline]))])" .
  have rest: "handle_lines d rt m (Suc a) (map Some requests) =
           (m, map (\<lambda>request. Inl (Stdout (JSON_stringify
                  (JObj ([(''jsonrpc'', JStr ''2.0'')]
                         @ (case property request ''id'' of None \<Rightarrow> [] | Some i \<Rightarrow> [(''id'', i)])
                         @ [(''error'', JObj [(''code'', JNum (- 32002)),
                                             (''message'', JStr ''Server not initialized'')])]))
                @ [newline]))) requests)"
    using Cons.IH Cons.prems by simp
  show ?case
    by (simp add: one rest exits_action_def not_initialized_error_def)
qed

lemma sample_requests_fields:
  "slow_request \<noteq> JNull \<and> property slow_request ''method'' \<noteq> Some (JStr ''initialize'')
   \<and> property slow_request ''id'' = Some (JNum 2)
   \<and> initialized_notification \<noteq> JNull \<and> property initialized_notification ''method'' \<noteq> Some (JStr ''initialize'')
   \<and> property initialized_notification ''id'' = None"
  by code_simp

text \<open>A request with an id and a notification without one, before any \<^verbatim>\<open>initialize\<close>.\<close>

theorem not_initialized_is_answered_locally_witness:
  "\<not> isInitialized main_init
   \<and> slow_request \<noteq> JNull
   \<and> property slow_request ''method'' \<noteq> Some (JStr ''initialize'')
   \<and> initialized_notification \<noteq> JNull
   \<and> property initialized_notification ''method'' \<noteq> Some (JStr ''initialize'')
   \<and> handle_lines Draft3 sample_runtime main_init 0 [Some slow_request, Some initialized_notification] =
       (main_init,
        [Inl (Stdout (JSON_stringify
                  (JObj [(''jsonrpc'', JStr ''2.0''), (''id'', JNum 2),
                         (''error'', JObj [(''code'', JNum (- 32002)),
                                          (''message'', JStr ''Server not initialized'')])])
                @ [newline])),
         Inl (Stdout (JSON_stringify
                  (JObj [(''jsonrpc'', JStr ''2.0''),
                         (''error'', JObj [(''code'', JNum (- 32002)),
                                          (''message'', JStr ''Server not initialized'')])])
                @ [newline]))])"
proof -
  have h1: "\<not> isInitialized main_init" by (simp add: main_init_def)
  have f: "slow_request \<noteq> JNull" "property slow_request ''method'' \<noteq> Some (JStr ''initialize'')"
    "initialized_notification \<noteq> JNull" "property initialized_notification ''method'' \<noteq> Some (JStr ''initialize'')"
    and i: "property slow_request ''id'' = Some (JNum 2)" "property initialized_notification ''id'' = None"
    using sample_requests_fields by blast+
  have h2: "\<forall>request \<in> set [slow_request, initialized_notification].
           request \<noteq> JNull \<and> property request ''method'' \<noteq> Some (JStr ''initialize'')"
    using f by simp
  have "handle_lines Draft3 sample_runtime main_init 0 [Some slow_request, Some initialized_notification] =
       (main_init,
        [Inl (Stdout (JSON_stringify
                  (JObj [(''jsonrpc'', JStr ''2.0''), (''id'', JNum 2),
                         (''error'', JObj [(''code'', JNum (- 32002)),
                                          (''message'', JStr ''Server not initialized'')])])
                @ [newline])),
         Inl (Stdout (JSON_stringify
                  (JObj [(''jsonrpc'', JStr ''2.0''),
                         (''error'', JObj [(''code'', JNum (- 32002)),
                                          (''message'', JStr ''Server not initialized'')])])
                @ [newline]))])"
    using not_initialized_is_answered_locally[OF h1 h2, of Draft3 sample_runtime 0]
    by (simp only: list.map i option.case append.simps)
  with h1 f show ?thesis by blast
qed

section \<open>Framing\<close>

lemma split_nl_not_empty: "split_nl s \<noteq> []"
  by (induction s) auto

lemma split_nl_line: "newline \<notin> set line \<Longrightarrow> split_nl (line @ newline # s) = line # split_nl s"
  by (induction line) auto

lemma split_nl_tail: "newline \<notin> set s \<Longrightarrow> split_nl s = [s]"
  by (induction s) auto

text \<open>Splitting a concatenation: the last piece of the first part continues into the second.\<close>

lemma split_nl_append:
  "split_nl (a @ b) = butlast (split_nl a) @ split_nl (last (split_nl a) @ b)"
proof (induction a)
  case Nil
  show ?case by simp
next
  case (Cons c a)
  show ?case
  proof (cases "c = newline")
    case True
    with Cons show ?thesis by (simp add: split_nl_not_empty)
  next
    case False
    show ?thesis
    proof (cases "split_nl a")
      case Nil
      with split_nl_not_empty show ?thesis by blast
    next
      case (Cons l ls)
      note a = this
      show ?thesis
      proof (cases ls)
        case Nil
        with a False Cons.IH show ?thesis by simp
      next
        case (Cons l' ls')
        have ne: "split_nl (last (split_nl a) @ b) \<noteq> []" by (rule split_nl_not_empty)
        from a Cons False Cons.IH ne show ?thesis
          by (cases "butlast (l' # ls')") (auto simp: split_nl_not_empty)
      qed
    qed
  qed
qed

lemma decode_lines_append: "decode_lines rt (xs @ ys) = decode_lines rt xs @ decode_lines rt ys"
  by (simp add: decode_lines_def)

lemma split_nl_last_no_newline: "newline \<notin> set (last (split_nl s))"
proof (induction s)
  case Nil
  show ?case by simp
next
  case (Cons c s)
  then show ?case
    by (cases "split_nl s"; cases "tl (split_nl s)") (auto simp: split_nl_not_empty)
qed

text \<open>
  However the stream is cut into chunks, the loop parses the complete lines of the whole
  stream and keeps what follows the last newline.
\<close>

lemma decode_chunks_whole:
  "newline \<notin> set buf \<Longrightarrow>
   decode_chunks rt buf chunks =
     (decode_lines rt (butlast (split_nl (buf @ concat chunks))), last (split_nl (buf @ concat chunks)))"
proof (induction chunks arbitrary: buf)
  case Nil
  then show ?case by (simp add: split_nl_tail decode_lines_def)
next
  case (Cons chunk chunks)
  let ?rest = "last (split_nl (buf @ chunk))"
  have "newline \<notin> set ?rest" by (rule split_nl_last_no_newline)
  from Cons.IH[OF this]
  have ih: "decode_chunks rt ?rest chunks =
      (decode_lines rt (butlast (split_nl (?rest @ concat chunks))), last (split_nl (?rest @ concat chunks)))" .
  have whole: "split_nl (buf @ concat (chunk # chunks)) =
      butlast (split_nl (buf @ chunk)) @ split_nl (?rest @ concat chunks)"
    using split_nl_append[of "buf @ chunk" "concat chunks"] by simp
  have ne: "split_nl (?rest @ concat chunks) \<noteq> []" by (rule split_nl_not_empty)
  show ?case
    unfolding whole using ne
    by (simp add: frame_split_def ih decode_lines_append butlast_append Let_def)
qed

text \<open>What \<^verbatim>\<open>JSON.stringify\<close> writes has no line break in it and is not blank.\<close>

lemma digits_plain: "c \<in> set digits \<Longrightarrow> c \<noteq> newline \<and> \<not> is_space c"
  by (auto simp: digits_def newline_def is_space_def)

lemma number_text_not_empty: "number_text i \<noteq> []"
  using decimal_digits[of "nat i"] by (simp add: number_text_def)

lemma number_text_plain: "c \<in> set (number_text i) \<Longrightarrow> c \<noteq> newline \<and> \<not> is_space c"
proof (cases "0 \<le> i")
  case True
  assume "c \<in> set (number_text i)"
  with True have "c \<in> set (decimal (nat i))" by (simp add: number_text_def)
  with decimal_digits[of "nat i"] have "c \<in> set digits" by blast
  then show ?thesis by (rule digits_plain)
next
  case False
  assume "c \<in> set (number_text i)"
  with False have "c = CHR ''-'' \<or> c \<in> set (decimal (nat (- i)))" by (simp add: number_text_def)
  then show ?thesis
  proof
    assume "c = CHR ''-''"
    then show ?thesis by (simp add: newline_def is_space_def)
  next
    assume "c \<in> set (decimal (nat (- i)))"
    with decimal_digits[of "nat (- i)"] have "c \<in> set digits" by blast
    then show ?thesis by (rule digits_plain)
  qed
qed
lemma hex_digit_char: "hex_digit n \<in> set ''0123456789abcdef''"
proof -
  have "n mod 16 < length ''0123456789abcdef''" by simp
  then show ?thesis unfolding hex_digit_def by (rule nth_mem)
qed

lemma hex_digit_not_newline: "CHR 0x0A \<noteq> hex_digit n"
  using hex_digit_char[of n] by auto

lemma escape_char_no_newline: "newline \<notin> set (escape_char c)"
proof (cases "c = newline")
  case True
  then show ?thesis
    by (simp add: escape_char_def newline_def dquote_def backslash_def)
next
  case False
  then show ?thesis
    using hex_digit_not_newline
    by (simp add: escape_char_def hex2_def dquote_def backslash_def newline_def)
qed

lemma quote_no_newline: "newline \<notin> set (quote s)"
  using escape_char_no_newline by (auto simp: quote_def newline_def dquote_def)

lemma join_no_newline: "\<forall>x \<in> set xs. newline \<notin> set x \<Longrightarrow> newline \<notin> set sep \<Longrightarrow> newline \<notin> set (join sep xs)"
  by (induction sep xs rule: join.induct) auto

lemma stringify_no_newline: "newline \<notin> set (JSON_stringify v)"
proof (induction v)
  case JNull
  show ?case by (simp add: newline_def)
next
  case (JBool b)
  show ?case by (simp add: newline_def)
next
  case (JNum n)
  show ?case using number_text_plain[of newline n] by auto
next
  case (JStr s)
  show ?case by (simp add: quote_no_newline)
next
  case (JArr xs)
  then have "newline \<notin> set (join '','' (map JSON_stringify xs))"
    by (intro join_no_newline) (auto simp: newline_def)
  then show ?case by (simp add: newline_def)
next
  case (JObj kvs)
  have "newline \<notin> set (join '','' (map (\<lambda>(k, v). quote k @ '':'' @ JSON_stringify v) kvs))"
  proof (intro join_no_newline ballI)
    fix x assume "x \<in> set (map (\<lambda>(k, v). quote k @ '':'' @ JSON_stringify v) kvs)"
    then obtain k v where kv: "(k, v) \<in> set kvs" and x: "x = quote k @ '':'' @ JSON_stringify v"
      by auto
    from kv JObj have "newline \<notin> set (JSON_stringify v)" by (auto simp: snds.simps)
    with x show "newline \<notin> set x" by (simp add: quote_no_newline) (simp add: newline_def)
  qed (simp add: newline_def)
  then show ?case by (simp add: newline_def)
qed

lemma trim_not_blank: "c \<in> set s \<Longrightarrow> \<not> is_space c \<Longrightarrow> trim s \<noteq> []"
proof -
  assume c: "c \<in> set s" "\<not> is_space c"
  then have ne: "dropWhile is_space s \<noteq> []" by (auto simp: dropWhile_eq_Nil_conv)
  then have "\<not> is_space (hd (dropWhile is_space s))" by (rule hd_dropWhile)
  moreover have "hd (dropWhile is_space s) \<in> set (rev (dropWhile is_space s))"
    using ne by simp
  ultimately have "dropWhile is_space (rev (dropWhile is_space s)) \<noteq> []"
    by (auto simp: dropWhile_eq_Nil_conv)
  then show ?thesis by (simp add: trim_def)
qed

lemma stringify_not_blank: "trim (JSON_stringify v) \<noteq> []"
proof (cases v)
  case JNull
  show ?thesis unfolding JNull by (rule trim_not_blank[of "CHR ''n''"]) (simp_all add: is_space_def)
next
  case (JBool b)
  show ?thesis unfolding JBool by (rule trim_not_blank[of "CHR ''e''"]) (simp_all add: is_space_def)
next
  case (JNum n)
  from number_text_not_empty[of n] obtain c where c: "c \<in> set (number_text n)"
    by (cases "number_text n") auto
  then have "\<not> is_space c" using number_text_plain by blast
  with c show ?thesis unfolding JNum by (intro trim_not_blank[of c]) simp_all
next
  case (JStr s)
  show ?thesis unfolding JStr
    by (rule trim_not_blank[of dquote]) (simp_all add: quote_def is_space_def dquote_def)
next
  case (JArr xs)
  show ?thesis unfolding JArr by (rule trim_not_blank[of "CHR ''[''"]) (simp_all add: is_space_def)
next
  case (JObj kvs)
  show ?thesis unfolding JObj by (rule trim_not_blank[of "CHR ''{''"]) (simp_all add: is_space_def)
qed

lemma split_nl_encoded:
  "newline \<notin> set rest \<Longrightarrow> split_nl (concat (map encode vs) @ rest) = map JSON_stringify vs @ [rest]"
proof (induction vs)
  case Nil
  then show ?case by (simp add: split_nl_tail)
next
  case (Cons v vs)
  have "concat (map encode (v # vs)) @ rest = JSON_stringify v @ newline # (concat (map encode vs) @ rest)"
    by (simp add: encode_def)
  moreover have "split_nl (JSON_stringify v @ newline # (concat (map encode vs) @ rest)) =
      JSON_stringify v # split_nl (concat (map encode vs) @ rest)"
    using stringify_no_newline by (rule split_nl_line)
  ultimately show ?case using Cons by simp
qed

lemma decode_lines_encoded:
  "\<forall>v \<in> set vs. JSON_parse rt (JSON_stringify v) = Some v \<Longrightarrow>
     decode_lines rt (map JSON_stringify vs) = map Some vs"
  by (induction vs) (auto simp: decode_lines_def stringify_not_blank)

text \<open>
  Claim C8.  Let \<^verbatim>\<open>JSON.parse\<close> invert \<^verbatim>\<open>JSON.stringify\<close> on the values \<open>vs\<close>.  Encode each value
  as its serialization followed by one newline, append any text \<open>rest\<close> without a newline,
  and cut the stream into chunks in any way.  Starting from an empty buffer, the loop of
  \<^verbatim>\<open>main\<close> parses exactly the values \<open>vs\<close>, in order, and the buffer it keeps for the next
  chunk is \<open>rest\<close>, the incomplete segment after the last newline.
\<close>

theorem framing_round_trip:
  assumes "\<forall>v \<in> set vs. JSON_parse rt (JSON_stringify v) = Some v"
    and "concat chunks = concat (map encode vs) @ rest"
    and "newline \<notin> set rest"
  shows "decode_chunks rt [] chunks = (map Some vs, rest)"
proof -
  have "decode_chunks rt [] chunks =
      (decode_lines rt (butlast (split_nl (concat chunks))), last (split_nl (concat chunks)))"
    using decode_chunks_whole[of "[]" rt chunks] by simp
  also have "split_nl (concat chunks) = map JSON_stringify vs @ [rest]"
    unfolding assms(2) using assms(3) by (rule split_nl_encoded)
  finally show ?thesis
    using assms(1) by (simp add: decode_lines_encoded)
qed

lemma parse_requests:
  "JSON_parse sample_runtime (JSON_stringify ping_request) = Some ping_request
   \<and> JSON_parse sample_runtime (JSON_stringify slow_request) = Some slow_request"
  by code_simp

text \<open>
  Two requests and the beginning of a third, cut after the tenth character, in the middle
  of the first line.
\<close>

theorem framing_round_trip_witness:
  "JSON_parse sample_runtime (JSON_stringify ping_request) = Some ping_request
   \<and> JSON_parse sample_runtime (JSON_stringify slow_request) = Some slow_request
   \<and> concat [take 10 sample_stream, drop 10 sample_stream]
       = concat (map encode [ping_request, slow_request]) @ ''{''
   \<and> newline \<notin> set ''{''
   \<and> decode_chunks sample_runtime [] [take 10 sample_stream, drop 10 sample_stream]
       = ([Some ping_request, Some slow_request], ''{'')"
proof -
  have h1: "\<forall>v \<in> set [ping_request, slow_request]. JSON_parse sample_runtime (JSON_stringify v) = Some v"
    using parse_requests by simp
  have "concat [take 10 sample_stream, drop 10 sample_stream] = sample_stream"
    by simp
  also have "sample_stream = concat (map encode [ping_request, slow_request]) @ ''{''"
    by (simp add: sample_stream_def)
  finally have h2: "concat [take 10 sample_stream, drop 10 sample_stream]
       = concat (map encode [ping_request, slow_request]) @ ''{''" .
  have h3: "newline \<notin> set ''{''" by (simp add: newline_def)
  have "decode_chunks sample_runtime [] [take 10 sample_stream, drop 10 sample_stream]
       = (map Some [ping_request, slow_request], ''{'')"
    by (rule framing_round_trip[OF h1 h2 h3])
  then have "decode_chunks sample_runtime [] [take 10 sample_stream, drop 10 sample_stream]
       = ([Some ping_request, Some slow_request], ''{'')"
    by (simp only: list.map)
  with parse_requests h2 h3 show ?thesis by blast
qed

section \<open>What the events leave alone\<close>

lemma posts_of_append: "posts_of (xs @ ys) = posts_of xs @ posts_of ys"
  by (simp add: posts_of_def)

lemma onmessage_frame:
  "serverUrl (fst (onmessage d rt c raw)) = serverUrl c
   \<and> sessionId (fst (onmessage d rt c raw)) = sessionId c
   \<and> sessionIdReceived (fst (onmessage d rt c raw)) = sessionIdReceived c
   \<and> posts_of (snd (onmessage d rt c raw)) = []"
  by (simp add: onmessage_def Let_def posts_of_def debug_log_def split: option.split)

lemma connectSSE_frame:
  "serverUrl (fst (connectSSE d rt c)) = serverUrl c
   \<and> sessionId (fst (connectSSE d rt c)) = sessionId c
   \<and> sessionIdReceived (fst (connectSSE d rt c)) = sessionIdReceived c
   \<and> posts_of (snd (connectSSE d rt c)) = []"
  by (auto simp: connectSSE_def connect_failed_def Let_def posts_of_def split: option.split)

lemma sse_step_frame:
  "serverUrl (fst (sse_step d rt c e)) = serverUrl c \<and> posts_of (snd (sse_step d rt c e)) = []"
proof (cases e)
  case Open
  then show ?thesis by (auto simp: sse_step_def onopen_def posts_of_def)
next
  case (Endpoint endpointData)
  then show ?thesis by (auto simp: sse_step_def onendpoint_def posts_of_def split: option.split)
next
  case (Message event_data)
  then show ?thesis by (simp add: sse_step_def onmessage_frame)
next
  case Error
  then show ?thesis by (auto simp: sse_step_def onerror_def Let_def posts_of_def debug_log_def)
next
  case Reconnect
  then show ?thesis by (simp add: sse_step_def connectSSE_frame)
qed

text \<open>Only an endpoint event that announces a session sets the flag.\<close>

lemma sse_step_flag:
  "sessionIdReceived (fst (sse_step d rt c e)) \<Longrightarrow> sessionIdReceived c \<or> announces e"
proof (cases e)
  case Open
  assume "sessionIdReceived (fst (sse_step d rt c e))"
  with Open show ?thesis by (simp add: sse_step_def onopen_def split: if_splits)
next
  case (Endpoint endpointData)
  assume "sessionIdReceived (fst (sse_step d rt c e))"
  with Endpoint show ?thesis
    by (auto simp: sse_step_def onendpoint_def announces_def split: option.splits if_splits)
next
  case (Message event_data)
  assume "sessionIdReceived (fst (sse_step d rt c e))"
  with Message show ?thesis by (simp add: sse_step_def onmessage_frame)
next
  case Error
  assume "sessionIdReceived (fst (sse_step d rt c e))"
  with Error show ?thesis by (simp add: sse_step_def onerror_def Let_def split: if_splits)
next
  case Reconnect
  assume "sessionIdReceived (fst (sse_step d rt c e))"
  with Reconnect show ?thesis by (simp add: sse_step_def connectSSE_frame)
qed

text \<open>Where the session token of the next state comes from.\<close>

lemma sse_step_token:
  "sessionId (fst (sse_step d rt c e)) = sessionId c
   \<or> sessionId (fst (sse_step d rt c e)) = None
   \<or> (\<exists>endpointData. e = Endpoint endpointData
         \<and> match_session_id endpointData = sessionId (fst (sse_step d rt c e)))"
proof (cases e)
  case Open
  then show ?thesis by (simp add: sse_step_def onopen_def)
next
  case (Endpoint endpointData)
  then show ?thesis by (simp add: sse_step_def onendpoint_def split: option.split)
next
  case (Message event_data)
  then show ?thesis by (simp add: sse_step_def onmessage_frame)
next
  case Error
  then show ?thesis by (simp add: sse_step_def onerror_def Let_def)
next
  case Reconnect
  then show ?thesis by (simp add: sse_step_def connectSSE_frame)
qed

lemma sse_run_Cons:
  "sse_run d rt c (e # es) =
     (if exits (snd (sse_step d rt c e)) then sse_step d rt c e
      else (fst (sse_run d rt (fst (sse_step d rt c e)) es),
            snd (sse_step d rt c e) @ snd (sse_run d rt (fst (sse_step d rt c e)) es)))"
  by (simp split: prod.split)

lemma sse_run_frame:
  "serverUrl (fst (sse_run d rt c es)) = serverUrl c \<and> posts_of (snd (sse_run d rt c es)) = []"
proof (induction es arbitrary: c)
  case Nil
  show ?case by (simp add: posts_of_def)
next
  case (Cons e es)
  show ?case
    using Cons.IH[of "fst (sse_step d rt c e)"] sse_step_frame[of d rt c e]
    by (simp add: sse_run_Cons posts_of_append del: sse_run.simps)
qed

lemma sse_run_flag:
  "sessionIdReceived (fst (sse_run d rt c es)) \<Longrightarrow> sessionIdReceived c \<or> (\<exists>e \<in> set es. announces e)"
proof (induction es arbitrary: c)
  case Nil
  then show ?case by simp
next
  case (Cons e es)
  have first: "sessionIdReceived (fst (sse_step d rt c e)) \<Longrightarrow> sessionIdReceived c \<or> announces e"
    by (rule sse_step_flag)
  show ?case
  proof (cases "exits (snd (sse_step d rt c e))")
    case True
    with Cons.prems first show ?thesis by (auto simp add: sse_run_Cons simp del: sse_run.simps)
  next
    case False
    with Cons.prems have "sessionIdReceived (fst (sse_run d rt (fst (sse_step d rt c e)) es))"
      by (simp add: sse_run_Cons del: sse_run.simps)
    from Cons.IH[OF this] first show ?thesis by auto
  qed
qed

lemma sse_run_token:
  "announced_in sched (sessionId c) \<Longrightarrow> set es \<subseteq> set (sched n) \<Longrightarrow>
     announced_in sched (sessionId (fst (sse_run d rt c es)))"
proof (induction es arbitrary: c)
  case Nil
  then show ?case by simp
next
  case (Cons e es)
  have e: "e \<in> set (sched n)" using Cons.prems(2) by simp
  have one: "announced_in sched (sessionId (fst (sse_step d rt c e)))"
    using sse_step_token[of d rt c e] Cons.prems(1) e
    by (auto simp: announced_in_def)
  moreover have "set es \<subseteq> set (sched n)" using Cons.prems(2) by simp
  ultimately have "announced_in sched (sessionId (fst (sse_run d rt (fst (sse_step d rt c e)) es)))"
    by (rule Cons.IH)
  with one show ?case
    by (simp add: sse_run_Cons del: sse_run.simps)
qed

section \<open>The polling loop\<close>

lemma wait_loop_stop:
  "sessionIdReceived c \<or> \<not> attempts < m \<Longrightarrow> wait_loop d rt m sched c attempts = (c, [], attempts)"
  by (subst wait_loop.simps) auto

lemma wait_loop_go:
  "\<not> sessionIdReceived c \<Longrightarrow> attempts < m \<Longrightarrow>
     wait_loop d rt m sched c attempts =
       (fst (wait_loop d rt m sched (fst (sse_run d rt c (sched attempts))) (Suc attempts)),
        snd (sse_run d rt c (sched attempts))
          @ (if d = Draft3 \<and> Suc attempts mod 100 = 0 then [LogInfo ''Still waiting for endpoint event''] else [])
          @ fst (snd (wait_loop d rt m sched (fst (sse_run d rt c (sched attempts))) (Suc attempts))),
        snd (snd (wait_loop d rt m sched (fst (sse_run d rt c (sched attempts))) (Suc attempts))))"
  by (subst wait_loop.simps) (simp split: prod.split)

lemma wait_loop_frame:
  "serverUrl (fst (wait_loop d rt m sched c attempts)) = serverUrl c
   \<and> posts_of (fst (snd (wait_loop d rt m sched c attempts))) = []"
proof (induction "m - attempts" arbitrary: c attempts)
  case 0
  then show ?case by (simp add: wait_loop_stop posts_of_def)
next
  case (Suc k)
  show ?case
  proof (cases "sessionIdReceived c")
    case True
    then show ?thesis by (simp add: wait_loop_stop posts_of_def)
  next
    case False
    have lt: "attempts < m" using Suc.hyps(2) by simp
    have k: "k = m - Suc attempts" using Suc.hyps(2) by simp
    from Suc.hyps(1)[OF k, of "fst (sse_run d rt c (sched attempts))"] sse_run_frame[of d rt c "sched attempts"]
    show ?thesis
      by (simp add: wait_loop_go[OF False lt] posts_of_append) (simp add: posts_of_def)
  qed
qed

text \<open>The loop ends with the flag set, or after all its checks.\<close>

lemma wait_loop_end:
  "attempts \<le> m \<Longrightarrow>
     sessionIdReceived (fst (wait_loop d rt m sched c attempts))
     \<or> snd (snd (wait_loop d rt m sched c attempts)) = m"
proof (induction "m - attempts" arbitrary: c attempts)
  case 0
  then show ?case by (simp add: wait_loop_stop)
next
  case (Suc k)
  show ?case
  proof (cases "sessionIdReceived c")
    case True
    then show ?thesis by (simp add: wait_loop_stop)
  next
    case False
    have lt: "attempts < m" using Suc.hyps(2) by simp
    have k: "k = m - Suc attempts" using Suc.hyps(2) by simp
    from Suc.hyps(1)[OF k, of "fst (sse_run d rt c (sched attempts))"] lt
    show ?thesis by (simp add: wait_loop_go[OF False lt])
  qed
qed

lemma wait_loop_flag:
  "sessionIdReceived (fst (wait_loop d rt m sched c attempts)) \<Longrightarrow>
     sessionIdReceived c \<or> (\<exists>n. attempts \<le> n \<and> n < m \<and> (\<exists>e \<in> set (sched n). announces e))"
proof (induction "m - attempts" arbitrary: c attempts)
  case 0
  then show ?case by (simp add: wait_loop_stop)
next
  case (Suc k)
  show ?case
  proof (cases "sessionIdReceived c")
    case True
    then show ?thesis by simp
  next
    case False
    have lt: "attempts < m" using Suc.hyps(2) by simp
    have k: "k = m - Suc attempts" using Suc.hyps(2) by simp
    let ?c1 = "fst (sse_run d rt c (sched attempts))"
    have "sessionIdReceived (fst (wait_loop d rt m sched ?c1 (Suc attempts)))"
      using Suc.prems by (simp add: wait_loop_go[OF False lt])
    from Suc.hyps(1)[OF k this]
    have "sessionIdReceived ?c1 \<or> (\<exists>n. Suc attempts \<le> n \<and> n < m \<and> (\<exists>e \<in> set (sched n). announces e))" .
    then show ?thesis
    proof
      assume "sessionIdReceived ?c1"
      from sse_run_flag[OF this] False lt show ?thesis by auto
    next
      assume "\<exists>n. Suc attempts \<le> n \<and> n < m \<and> (\<exists>e \<in> set (sched n). announces e)"
      then show ?thesis by (auto intro: Suc_leD)
    qed
  qed
qed

lemma wait_loop_token:
  "announced_in sched (sessionId c) \<Longrightarrow>
     announced_in sched (sessionId (fst (wait_loop d rt m sched c attempts)))"
proof (induction "m - attempts" arbitrary: c attempts)
  case 0
  then show ?case by (simp add: wait_loop_stop)
next
  case (Suc k)
  show ?case
  proof (cases "sessionIdReceived c")
    case True
    with Suc.prems show ?thesis by (simp add: wait_loop_stop)
  next
    case False
    have lt: "attempts < m" using Suc.hyps(2) by simp
    have k: "k = m - Suc attempts" using Suc.hyps(2) by simp
    have "announced_in sched (sessionId (fst (sse_run d rt c (sched attempts))))"
      using Suc.prems by (rule sse_run_token[where n = attempts]) (rule subset_refl)
    from Suc.hyps(1)[OF k this] show ?thesis by (simp add: wait_loop_go[OF False lt])
  qed
qed

section \<open>Waiting for the session\<close>

lemma waitForSessionId_third:
  "waitForSessionId Draft3 rt uuid sched c =
     (fst (wait_loop Draft3 rt 1000 sched c 0),
      fst (snd (wait_loop Draft3 rt 1000 sched c 0))
        @ (if sessionIdReceived (fst (wait_loop Draft3 rt 1000 sched c 0))
           then [LogInfo ''Session ID ready'']
           else [LogError ''Timeout waiting for session_id from server'',
                 LogError ''The SSE endpoint event was never received'']),
      if sessionIdReceived (fst (wait_loop Draft3 rt 1000 sched c 0)) then Resolved else Rejected)"
  by (simp add: waitForSessionId_def maxAttempts_def case_prod_beta)

lemma waitForSessionId_second:
  "waitForSessionId Draft2 rt uuid sched c =
     (if sessionIdReceived (fst (wait_loop Draft2 rt 100 sched c 0))
      then (fst (wait_loop Draft2 rt 100 sched c 0), fst (snd (wait_loop Draft2 rt 100 sched c 0)), Resolved)
      else ((fst (wait_loop Draft2 rt 100 sched c 0))\<lparr>sessionId := Some uuid, sessionIdReceived := True\<rparr>,
            fst (snd (wait_loop Draft2 rt 100 sched c 0))
              @ [LogError ''Timeout waiting for session_id from server'',
                 LogInfo ''FALLBACK: Generated session_id''],
            Resolved))"
  by (simp add: waitForSessionId_def maxAttempts_def case_prod_beta)

lemma waitForSessionId_frame:
  assumes "d \<noteq> Draft1"
  shows "serverUrl (fst (waitForSessionId d rt uuid sched c)) = serverUrl c
       \<and> posts_of (fst (snd (waitForSessionId d rt uuid sched c))) = []"
proof (cases d)
  case Draft1
  with assms show ?thesis by simp
next
  case Draft2
  show ?thesis
    unfolding Draft2 waitForSessionId_second
    using wait_loop_frame[of Draft2 rt 100 sched c 0]
    by (simp add: posts_of_append) (simp add: posts_of_def)
next
  case Draft3
  show ?thesis
    unfolding Draft3 waitForSessionId_third
    using wait_loop_frame[of Draft3 rt 1000 sched c 0]
    by (simp add: posts_of_append) (simp add: posts_of_def)
qed

text \<open>The POST of \<^verbatim>\<open>sendRequest\<close> in the drafts that wait: none after a rejection, else one.\<close>

lemma sendRequest_rejected:
  "d \<noteq> Draft1 \<Longrightarrow> snd (snd (waitForSessionId d rt uuid sched c)) = Rejected \<Longrightarrow>
     sendRequest d rt uuid sched during res c a payload =
       (fst (waitForSessionId d rt uuid sched c), fst (snd (waitForSessionId d rt uuid sched c)), Rejected)"
  by (simp add: sendRequest_def case_prod_beta)

lemma sendRequest_no_url:
  "d \<noteq> Draft1 \<Longrightarrow> snd (snd (waitForSessionId d rt uuid sched c)) = Resolved \<Longrightarrow>
   getMessagesUrl d rt (fst (waitForSessionId d rt uuid sched c)) = None \<Longrightarrow>
     sendRequest d rt uuid sched during res c a payload =
       (fst (waitForSessionId d rt uuid sched c), fst (snd (waitForSessionId d rt uuid sched c)), Rejected)"
  by (simp add: sendRequest_def case_prod_beta)

text \<open>When \<^verbatim>\<open>apiToken\<close> cannot be written into the header, no POST is issued.\<close>

lemma sendRequest_no_token:
  "d \<noteq> Draft1 \<Longrightarrow> snd (snd (waitForSessionId d rt uuid sched c)) = Resolved \<Longrightarrow>
   getMessagesUrl d rt (fst (waitForSessionId d rt uuid sched c)) = Some messagesUrl \<Longrightarrow>
   String_of (apiToken (fst (waitForSessionId d rt uuid sched c))) = None \<Longrightarrow>
     sendRequest d rt uuid sched during res c a payload =
       ((if d = Draft3 then cleanup (fst (waitForSessionId d rt uuid sched c)) a payload
         else fst (waitForSessionId d rt uuid sched c)),
        fst (snd (waitForSessionId d rt uuid sched c)) @ [LogError ''Failed to send request to remote server''],
        Resolved)"
  by (simp add: sendRequest_def case_prod_beta Let_def)

text \<open>When the POST is issued: the state it ends in and what it does, by the result.\<close>

lemma sendRequest_posted:
  assumes "d \<noteq> Draft1"
    and "snd (snd (waitForSessionId d rt uuid sched c)) = Resolved"
    and "getMessagesUrl d rt (fst (waitForSessionId d rt uuid sched c)) = Some messagesUrl"
    and "String_of (apiToken (fst (waitForSessionId d rt uuid sched c))) = Some token"
  shows "sendRequest d rt uuid sched during res c a payload =
       ((if (case res of HttpResponse status text_returns \<Rightarrow> response_ok status | FetchThrows \<Rightarrow> False)
         then fst (sse_run d rt (fst (waitForSessionId d rt uuid sched c)) during)
         else if d = Draft3
           then cleanup (fst (sse_run d rt (fst (waitForSessionId d rt uuid sched c)) during)) a payload
           else fst (sse_run d rt (fst (waitForSessionId d rt uuid sched c)) during)),
        fst (snd (waitForSessionId d rt uuid sched c))
          @ [Post messagesUrl (''Bearer '' @ token) (JSON_stringify payload)]
          @ snd (sse_run d rt (fst (waitForSessionId d rt uuid sched c)) during)
          @ (case res of
               HttpResponse status text_returns \<Rightarrow>
                 if response_ok status then []
                 else if text_returns then [LogError ''POST request failed with status'']
                 else [LogError ''Failed to send request to remote server'']
             | FetchThrows \<Rightarrow> [LogError ''Failed to send request to remote server'']),
        Resolved)"
  using assms by (simp add: sendRequest_def case_prod_beta Let_def split: fetch_result.split)

lemma sendRequest_posts:
  assumes "d \<noteq> Draft1"
  shows "posts_of (fst (snd (sendRequest d rt uuid sched during res c a payload))) =
     (if snd (snd (waitForSessionId d rt uuid sched c)) = Rejected then []
      else case getMessagesUrl d rt (fst (waitForSessionId d rt uuid sched c)) of
             None \<Rightarrow> []
           | Some messagesUrl \<Rightarrow>
               (case String_of (apiToken (fst (waitForSessionId d rt uuid sched c))) of
                  None \<Rightarrow> []
                | Some token \<Rightarrow> [(messagesUrl, ''Bearer '' @ token, JSON_stringify payload)]))"
proof (cases "snd (snd (waitForSessionId d rt uuid sched c))")
  case Rejected
  show ?thesis
    using waitForSessionId_frame[OF assms, of rt uuid sched c]
    by (simp add: sendRequest_rejected[OF assms Rejected] Rejected)
next
  case Resolved
  show ?thesis
  proof (cases "getMessagesUrl d rt (fst (waitForSessionId d rt uuid sched c))")
    case None
    show ?thesis
      using waitForSessionId_frame[OF assms, of rt uuid sched c]
      by (simp add: sendRequest_no_url[OF assms Resolved None] Resolved None)
  next
    case (Some messagesUrl)
    show ?thesis
    proof (cases "String_of (apiToken (fst (waitForSessionId d rt uuid sched c)))")
      case None
      show ?thesis
        using waitForSessionId_frame[OF assms, of rt uuid sched c]
        by (simp add: sendRequest_no_token[OF assms Resolved Some None] Resolved Some None posts_of_append)
           (simp add: posts_of_def)
    next
      case token: (Some token)
      have quiet: "posts_of (snd (sse_run d rt (fst (waitForSessionId d rt uuid sched c)) during)) = []"
        using sse_run_frame by blast
      have tail: "posts_of (case res of
                 HttpResponse status text_returns \<Rightarrow>
                   if response_ok status then []
                   else if text_returns then [LogError ''POST request failed with status'']
                   else [LogError ''Failed to send request to remote server'']
               | FetchThrows \<Rightarrow> [LogError ''Failed to send request to remote server'']) = []"
        by (simp add: posts_of_def split: fetch_result.split)
      show ?thesis
        using waitForSessionId_frame[OF assms, of rt uuid sched c] quiet tail
        by (simp add: sendRequest_posted[OF assms Resolved Some token] Resolved Some token posts_of_append)
           (simp add: posts_of_def)
    qed
  qed
qed

section \<open>Dispatch and the handshake\<close>

lemma post_in_posts_of: "Post u a b \<in> set fx \<longleftrightarrow> (u, a, b) \<in> set (posts_of fx)"
  by (induction fx) (auto simp: posts_of_def split: effect.splits)

lemma getMessagesUrl_depends:
  "serverUrl c1 = serverUrl c \<Longrightarrow> getMessagesUrl d rt c1 = getMessagesUrl d rt (c\<lparr>sessionId := sessionId c1\<rparr>)"
  by (cases "serverUrl c") (simp_all add: getMessagesUrl_def Let_def)

lemma pending_has_cleanup:
  "property payload ''id'' = Some i \<Longrightarrow>
     \<not> pending_has_own (pendingRequests (cleanup c a payload)) a i
     \<and> \<not> pending_has (pendingRequests (cleanup c a payload)) i"
proof (cases "pending_has_own (pendingRequests c) a i")
  case True
  assume "property payload ''id'' = Some i"
  with True show ?thesis
    by (simp add: cleanup_def pending_has_own_delete pending_has_delete_own)
next
  case False
  assume i: "property payload ''id'' = Some i"
  have "\<not> pending_has (pendingRequests c) i"
  proof
    assume has: "pending_has (pendingRequests c) i"
    then have "primitive i" by (simp add: pending_has_def)
    with has False show False by (simp add: pending_has_own_primitive)
  qed
  with False i show ?thesis by (simp add: cleanup_def)
qed

text \<open>
  Claim C1, as amended, for the third draft.  If \<^verbatim>\<open>sendRequest\<close>, called for the request at
  address \<open>a\<close>, issues a POST, the flag
  \<^verbatim>\<open>sessionIdReceived\<close> is set in the state in which it is issued, and it was set when the call
  began or an endpoint event announcing a session arrived during one of the at most 1000
  sleeps.  If the flag is unset when the call begins and no such event arrives during the
  1000 sleeps, the call is rejected: no POST is issued, the timeout is logged, and the
  handler that \<^verbatim>\<open>main\<close> attaches in its dispatch branch removes the request's id from the
  Pending-Request Table.
\<close>

theorem handshake_gates_dispatch:
  "(posts_of (fst (snd (sendRequest Draft3 rt uuid sched during res c a request))) \<noteq> [] \<longrightarrow>
      sessionIdReceived (fst (waitForSessionId Draft3 rt uuid sched c))
      \<and> (sessionIdReceived c \<or> (\<exists>n<1000. \<exists>e \<in> set (sched n). announces e)))
   \<and> (\<not> sessionIdReceived c \<and> (\<forall>n<1000. \<forall>e \<in> set (sched n). \<not> announces e) \<longrightarrow>
        posts_of (snd (send_and_catch Draft3 rt uuid sched during res LogAndUntrack c a request)) = []
        \<and> LogError ''Timeout waiting for session_id from server''
             \<in> set (snd (send_and_catch Draft3 rt uuid sched during res LogAndUntrack c a request))
        \<and> Stderr ''Error sending request''
             \<in> set (snd (send_and_catch Draft3 rt uuid sched during res LogAndUntrack c a request))
        \<and> (\<forall>i. property request ''id'' = Some i \<longrightarrow>
              \<not> pending_has (pendingRequests
                     (fst (send_and_catch Draft3 rt uuid sched during res LogAndUntrack c a request))) i
              \<and> \<not> pending_has_own (pendingRequests
                     (fst (send_and_catch Draft3 rt uuid sched during res LogAndUntrack c a request))) a i))"
proof (intro conjI impI)
  let ?w = "waitForSessionId Draft3 rt uuid sched c"
  let ?c1 = "fst (wait_loop Draft3 rt 1000 sched c 0)"
  have d: "Draft3 \<noteq> Draft1" by simp
  assume posted: "posts_of (fst (snd (sendRequest Draft3 rt uuid sched during res c a request))) \<noteq> []"
  then have "snd (snd ?w) \<noteq> Rejected"
    by (auto simp: sendRequest_posts[OF d])
  then have flag: "sessionIdReceived ?c1"
    by (simp add: waitForSessionId_third split: if_splits)
  then show "sessionIdReceived (fst ?w)"
    by (simp add: waitForSessionId_third)
  from wait_loop_flag[OF flag]
  show "sessionIdReceived c \<or> (\<exists>n<1000. \<exists>e \<in> set (sched n). announces e)"
    by auto
next
  let ?w = "waitForSessionId Draft3 rt uuid sched c"
  let ?c1 = "fst (wait_loop Draft3 rt 1000 sched c 0)"
  let ?r = "send_and_catch Draft3 rt uuid sched during res LogAndUntrack c a request"
  have d: "Draft3 \<noteq> Draft1" by simp
  assume quiet: "\<not> sessionIdReceived c \<and> (\<forall>n<1000. \<forall>e \<in> set (sched n). \<not> announces e)"
  have unset: "\<not> sessionIdReceived ?c1"
  proof
    assume "sessionIdReceived ?c1"
    from wait_loop_flag[OF this] quiet show False by auto
  qed
  then have rejected: "snd (snd ?w) = Rejected"
    by (simp add: waitForSessionId_third)
  have sent: "sendRequest Draft3 rt uuid sched during res c a request = (fst ?w, fst (snd ?w), Rejected)"
    by (rule sendRequest_rejected[OF d rejected])
  have caught: "?r = (fst (on_rejected LogAndUntrack (fst ?w) a request),
                      fst (snd ?w) @ snd (on_rejected LogAndUntrack (fst ?w) a request))"
    by (simp add: send_and_catch_def sent case_prod_beta)
  have none: "posts_of (fst (snd ?w)) = []"
    using waitForSessionId_frame[OF d] by blast
  have handler: "posts_of (snd (on_rejected LogAndUntrack (fst ?w) a request)) = []"
    "Stderr ''Error sending request'' \<in> set (snd (on_rejected LogAndUntrack (fst ?w) a request))"
    by (simp_all add: on_rejected_def posts_of_def split: option.split)
  show "posts_of (snd ?r) = []"
    by (simp add: caught posts_of_append none handler)
  show "LogError ''Timeout waiting for session_id from server'' \<in> set (snd ?r)"
    using unset by (simp add: caught waitForSessionId_third)
  show "Stderr ''Error sending request'' \<in> set (snd ?r)"
    using handler(2) by (simp add: caught)
  show "\<forall>i. property request ''id'' = Some i \<longrightarrow>
      \<not> pending_has (pendingRequests (fst ?r)) i \<and> \<not> pending_has_own (pendingRequests (fst ?r)) a i"
    by (simp add: caught on_rejected_def pending_has_delete_own pending_has_own_delete)
qed

text \<open>On a silent schedule the loop of the second draft runs through all its checks.\<close>

lemma wait_loop_silent:
  "\<not> sessionIdReceived c \<Longrightarrow> attempts \<le> m \<Longrightarrow> d \<noteq> Draft3 \<Longrightarrow>
     wait_loop d rt m silence c attempts = (c, [], m)"
proof (induction "m - attempts" arbitrary: attempts)
  case 0
  then show ?case by (simp add: wait_loop_stop)
next
  case (Suc k)
  have lt: "attempts < m" using Suc.hyps(2) by simp
  have k: "k = m - Suc attempts" using Suc.hyps(2) by simp
  have "wait_loop d rt m silence c (Suc attempts) = (c, [], m)"
    using Suc.hyps(1)[OF k Suc.prems(1) _ Suc.prems(3)] lt by simp
  then show ?case
    using Suc.prems(3) by (simp add: wait_loop_go[OF Suc.prems(1) lt] silence_def)
qed

lemma ready_connector_posts:
  "sessionIdReceived ready_connector
   \<and> getMessagesUrl Draft3 sample_runtime ready_connector
       = Some ''http://127.0.0.1:3001/messages?session_id=0123456789abcdef0123456789abcdef''
   \<and> String_of (apiToken ready_connector) = Some ''default-api-key''"
  by code_simp

lemma waiting_connector_fields:
  "\<not> sessionIdReceived waiting_connector
   \<and> sessionId waiting_connector = None
   \<and> pending_has (pendingRequests waiting_connector) (JNum 2)
   \<and> property slow_request ''id'' = Some (JNum 2)
   \<and> getMessagesUrl Draft2 sample_runtime (waiting_connector\<lparr>sessionId := Some sample_uuid, sessionIdReceived := True\<rparr>)
       = Some ''http://127.0.0.1:3001/messages?session_id=123e4567-e89b-12d3-a456-426614174000''"
  by code_simp

text \<open>
  On an announced session the POST goes out.  The scenario of the spec: \<open>slow_request\<close> is
  dispatched, no endpoint event ever arrives; the third draft makes no HTTP call and the
  table has no entry for 2 afterwards.
\<close>

theorem handshake_gates_dispatch_witness:
  "posts_of (fst (snd (sendRequest Draft3 sample_runtime sample_uuid silence [] (HttpResponse 202 True)
       ready_connector 0 ping_request))) \<noteq> []
   \<and> sessionIdReceived (fst (waitForSessionId Draft3 sample_runtime sample_uuid silence ready_connector))
   \<and> \<not> sessionIdReceived waiting_connector
   \<and> pending_has (pendingRequests waiting_connector) (JNum 2)
   \<and> posts_of (snd (send_and_catch Draft3 sample_runtime sample_uuid silence [] (HttpResponse 202 True)
         LogAndUntrack waiting_connector 1 slow_request)) = []
   \<and> \<not> pending_has (pendingRequests (fst (send_and_catch Draft3 sample_runtime sample_uuid silence []
         (HttpResponse 202 True) LogAndUntrack waiting_connector 1 slow_request))) (JNum 2)"
proof -
  have d: "Draft3 \<noteq> Draft1" by simp
  have ready: "wait_loop Draft3 sample_runtime 1000 silence ready_connector 0 = (ready_connector, [], 0)"
    using ready_connector_posts by (simp add: wait_loop_stop)
  have posted: "posts_of (fst (snd (sendRequest Draft3 sample_runtime sample_uuid silence [] (HttpResponse 202 True)
       ready_connector 0 ping_request))) \<noteq> []"
    using ready_connector_posts
    by (simp add: sendRequest_posts[OF d] waitForSessionId_third ready)
  have unset: "\<not> sessionIdReceived waiting_connector"
    and tracked: "pending_has (pendingRequests waiting_connector) (JNum 2)"
    and i: "property slow_request ''id'' = Some (JNum 2)"
    using waiting_connector_fields by blast+
  have quiet: "\<not> sessionIdReceived waiting_connector
      \<and> (\<forall>n<1000. \<forall>e \<in> set (silence n). \<not> announces e)"
    using unset by (simp add: silence_def)
  note main = handshake_gates_dispatch[of sample_runtime sample_uuid silence "[]" "HttpResponse 202 True"]
  from main[of ready_connector 0 ping_request] posted
  have a: "sessionIdReceived (fst (waitForSessionId Draft3 sample_runtime sample_uuid silence ready_connector))"
    by blast
  from main[of waiting_connector 1 slow_request] quiet i
  have b: "posts_of (snd (send_and_catch Draft3 sample_runtime sample_uuid silence [] (HttpResponse 202 True)
         LogAndUntrack waiting_connector 1 slow_request)) = []
     \<and> \<not> pending_has (pendingRequests (fst (send_and_catch Draft3 sample_runtime sample_uuid silence []
         (HttpResponse 202 True) LogAndUntrack waiting_connector 1 slow_request))) (JNum 2)"
    by blast
  from posted a unset tracked b show ?thesis by blast
qed

text \<open>
  The same scenario in the second draft: after 100 checks it generates a session id itself
  and issues the POST, although no endpoint event ever arrived; the table keeps the entry.
\<close>

theorem second_draft_posts_after_timeout:
  "\<not> sessionIdReceived waiting_connector
   \<and> posts_of (snd (send_and_catch Draft2 sample_runtime sample_uuid silence [] (HttpResponse 202 True)
         LogAndUntrack waiting_connector 1 slow_request))
       = [(''http://127.0.0.1:3001/messages?session_id=123e4567-e89b-12d3-a456-426614174000'',
           ''Bearer default-api-key'', JSON_stringify slow_request)]
   \<and> pending_has (pendingRequests (fst (send_and_catch Draft2 sample_runtime sample_uuid silence []
         (HttpResponse 202 True) LogAndUntrack waiting_connector 1 slow_request))) (JNum 2)"
proof -
  have d: "Draft2 \<noteq> Draft1" by simp
  have unset: "\<not> sessionIdReceived waiting_connector"
    and tracked: "pending_has (pendingRequests waiting_connector) (JNum 2)"
    and url: "getMessagesUrl Draft2 sample_runtime (waiting_connector\<lparr>sessionId := Some sample_uuid, sessionIdReceived := True\<rparr>)
       = Some ''http://127.0.0.1:3001/messages?session_id=123e4567-e89b-12d3-a456-426614174000''"
    using waiting_connector_fields by blast+
  have loop: "wait_loop Draft2 sample_runtime 100 silence waiting_connector 0 = (waiting_connector, [], 100)"
    using unset by (simp add: wait_loop_silent)
  have wait: "waitForSessionId Draft2 sample_runtime sample_uuid silence waiting_connector =
      (waiting_connector\<lparr>sessionId := Some sample_uuid, sessionIdReceived := True\<rparr>,
       [LogError ''Timeout waiting for session_id from server'', LogInfo ''FALLBACK: Generated session_id''],
       Resolved)"
    using unset by (simp add: waitForSessionId_second loop)
  have token: "apiToken waiting_connector = JStr ''default-api-key''"
    by (simp add: waiting_connector_def sample_connector_def new_connector_def)
  have sent: "sendRequest Draft2 sample_runtime sample_uuid silence [] (HttpResponse 202 True) waiting_connector 1 slow_request =
      (waiting_connector\<lparr>sessionId := Some sample_uuid, sessionIdReceived := True\<rparr>,
       [LogError ''Timeout waiting for session_id from server'', LogInfo ''FALLBACK: Generated session_id'',
        Post ''http://127.0.0.1:3001/messages?session_id=123e4567-e89b-12d3-a456-426614174000''
             ''Bearer default-api-key'' (JSON_stringify slow_request)],
       Resolved)"
    using sendRequest_posted[OF d, of sample_runtime sample_uuid silence waiting_connector _ _ "[]"
        "HttpResponse 202 True" 1 slow_request]
    by (simp add: wait url token response_ok_def)
  show ?thesis
    unfolding send_and_catch_def sent using unset tracked by (simp add: posts_of_def)
qed

section \<open>A new connection\<close>

lemma waitForSessionId_token:
  assumes "d \<noteq> Draft1" and "announced_in sched (sessionId c)"
  shows "announced_in sched (sessionId (fst (waitForSessionId d rt uuid sched c)))
       \<or> (d = Draft2 \<and> sessionId (fst (waitForSessionId d rt uuid sched c)) = Some uuid)"
proof (cases d)
  case Draft1
  with assms(1) show ?thesis by simp
next
  case Draft2
  show ?thesis
    unfolding Draft2 waitForSessionId_second
    using wait_loop_token[OF assms(2), of Draft2 rt 100 0] by simp
next
  case Draft3
  show ?thesis
    unfolding Draft3 waitForSessionId_third
    using wait_loop_token[OF assms(2), of Draft3 rt 1000 0] by simp
qed

text \<open>
  Claim C7, as amended.  In the second and third drafts, when a connection opens the session
  token is unset, the flag is cleared and the duplicate cache is emptied, and what \<^verbatim>\<open>onopen\<close>
  returns does not depend on the token, the flag or the cache of the connection before.  A
  \<^verbatim>\<open>sendRequest\<close> that starts in the state after \<^verbatim>\<open>onopen\<close> can only POST to the messages URL
  without a session, or with a token that an endpoint event announced after the opening
  (or, in the second draft, with the id it generated itself at the timeout).  Nothing is
  reset when the connection drops or when the next attempt starts.
\<close>

theorem reconnect_resets_session:
  assumes "d \<noteq> Draft1"
  shows "sessionId (fst (onopen d c)) = None
       \<and> \<not> sessionIdReceived (fst (onopen d c))
       \<and> processedMessageIds (fst (onopen d c)) = []
       \<and> onopen d (c\<lparr>sessionId := old_token, sessionIdReceived := old_flag,
                       processedMessageIds := old_cache\<rparr>) = onopen d c
       \<and> (\<forall>u h b. Post u h b \<in> set (fst (snd (sendRequest d rt uuid sched during res (fst (onopen d c)) a request)))
            \<longrightarrow> (\<exists>token. getMessagesUrl d rt (c\<lparr>sessionId := token\<rparr>) = Some u
                    \<and> (announced_in sched token \<or> (d = Draft2 \<and> token = Some uuid))))"
proof (intro conjI allI impI)
  show "sessionId (fst (onopen d c)) = None" "\<not> sessionIdReceived (fst (onopen d c))"
    "processedMessageIds (fst (onopen d c)) = []"
    using assms by (simp_all add: onopen_def)
  show "onopen d (c\<lparr>sessionId := old_token, sessionIdReceived := old_flag,
                    processedMessageIds := old_cache\<rparr>) = onopen d c"
    using assms by (simp add: onopen_def)
next
  fix u h b
  let ?c0 = "fst (onopen d c)"
  let ?c1 = "fst (waitForSessionId d rt uuid sched ?c0)"
  assume "Post u h b \<in> set (fst (snd (sendRequest d rt uuid sched during res ?c0 a request)))"
  then have "(u, h, b) \<in> set (posts_of (fst (snd (sendRequest d rt uuid sched during res ?c0 a request))))"
    by (simp add: post_in_posts_of)
  then have url: "getMessagesUrl d rt ?c1 = Some u"
    by (auto simp: sendRequest_posts[OF assms] split: if_splits option.splits)
  have opened: "serverUrl ?c0 = serverUrl c" "sessionId ?c0 = None"
    using assms by (simp_all add: onopen_def)
  have "serverUrl ?c1 = serverUrl c"
    using waitForSessionId_frame[OF assms, of rt uuid sched ?c0] opened(1) by simp
  then have "getMessagesUrl d rt ?c1 = getMessagesUrl d rt (c\<lparr>sessionId := sessionId ?c1\<rparr>)"
    by (rule getMessagesUrl_depends)
  moreover have "announced_in sched (sessionId ?c0)"
    using opened(2) by (simp add: announced_in_def)
  then have "announced_in sched (sessionId ?c1) \<or> (d = Draft2 \<and> sessionId ?c1 = Some uuid)"
    by (rule waitForSessionId_token[OF assms])
  ultimately show "\<exists>token. getMessagesUrl d rt (c\<lparr>sessionId := token\<rparr>) = Some u
      \<and> (announced_in sched token \<or> (d = Draft2 \<and> token = Some uuid))"
    using url by auto
qed

lemma reopened_dispatch:
  "sessionId ready_connector = Some sample_token
   \<and> Post ''http://127.0.0.1:3001/messages?session_id=fedcba9876543210fedcba9876543210''
          ''Bearer default-api-key'' (JSON_stringify ping_request)
       \<in> set (fst (snd (sendRequest Draft3 sample_runtime sample_uuid new_session [] (HttpResponse 202 True)
                  (fst (onopen Draft3 ready_connector)) 0 ping_request)))"
  by code_simp

text \<open>
  A connection with the token \<open>sample_token\<close> is replaced by one on which the server
  announces another token: the POST that follows carries the new one.
\<close>

theorem reconnect_resets_session_witness:
  "Draft3 \<noteq> Draft1
   \<and> sessionId ready_connector = Some sample_token
   \<and> sessionId (fst (onopen Draft3 ready_connector)) = None
   \<and> \<not> sessionIdReceived (fst (onopen Draft3 ready_connector))
   \<and> processedMessageIds (fst (onopen Draft3 ready_connector)) = []
   \<and> Post ''http://127.0.0.1:3001/messages?session_id=fedcba9876543210fedcba9876543210''
          ''Bearer default-api-key'' (JSON_stringify ping_request)
       \<in> set (fst (snd (sendRequest Draft3 sample_runtime sample_uuid new_session [] (HttpResponse 202 True)
                  (fst (onopen Draft3 ready_connector)) 0 ping_request)))
   \<and> (\<exists>token. getMessagesUrl Draft3 sample_runtime (ready_connector\<lparr>sessionId := token\<rparr>)
                 = Some ''http://127.0.0.1:3001/messages?session_id=fedcba9876543210fedcba9876543210''
              \<and> announced_in new_session token)"
proof -
  have d: "Draft3 \<noteq> Draft1" by simp
  note main = reconnect_resets_session[OF d, of ready_connector _ _ _ sample_runtime sample_uuid new_session
      "[]" "HttpResponse 202 True" 0 ping_request]
  from main have reset: "sessionId (fst (onopen Draft3 ready_connector)) = None
      \<and> \<not> sessionIdReceived (fst (onopen Draft3 ready_connector))
      \<and> processedMessageIds (fst (onopen Draft3 ready_connector)) = []"
    by blast
  from main reopened_dispatch
  have "\<exists>token. getMessagesUrl Draft3 sample_runtime (ready_connector\<lparr>sessionId := token\<rparr>)
                 = Some ''http://127.0.0.1:3001/messages?session_id=fedcba9876543210fedcba9876543210''
              \<and> (announced_in new_session token \<or> (Draft3 = Draft2 \<and> token = Some sample_uuid))"
    by blast
  then have "\<exists>token. getMessagesUrl Draft3 sample_runtime (ready_connector\<lparr>sessionId := token\<rparr>)
                 = Some ''http://127.0.0.1:3001/messages?session_id=fedcba9876543210fedcba9876543210''
              \<and> announced_in new_session token"
    by auto
  with d reset reopened_dispatch show ?thesis by blast
qed

text \<open>
  The connection with the token \<open>sample_token\<close> drops and the next attempt starts
  (\<^verbatim>\<open>onerror\<close>, then \<^verbatim>\<open>connectSSE\<close> from the timer), but has not opened yet.  The token and the
  flag are as before, so a request sent now does not wait and its POST carries the token
  of the connection that is gone.
\<close>

theorem stale_token_posted:
  "sessionId ready_connector = Some sample_token
   \<and> sessionId (fst (sse_run Draft3 sample_runtime ready_connector [Error, Reconnect])) = Some sample_token
   \<and> posts_of (fst (snd (sendRequest Draft3 sample_runtime sample_uuid silence [] (HttpResponse 202 True)
        (fst (sse_run Draft3 sample_runtime ready_connector [Error, Reconnect])) 1 slow_request)))
       = [(''http://127.0.0.1:3001/messages?session_id=0123456789abcdef0123456789abcdef'',
           ''Bearer default-api-key'', JSON_stringify slow_request)]"
  by code_simp

section \<open>Failed sends\<close>

text \<open>
  In the third draft, when the POST is issued and comes back with a status outside 200-299
  or the send throws, the request's id is not in the Pending-Request Table afterwards, the
  failure is logged, and the call has issued that one POST and no other.
\<close>

lemma third_draft_failed_post_frees_entry:
  assumes "posts_of (fst (snd (sendRequest Draft3 rt uuid sched during res c a payload))) \<noteq> []"
    and "case res of HttpResponse status text_returns \<Rightarrow> \<not> response_ok status | FetchThrows \<Rightarrow> True"
    and "property payload ''id'' = Some i"
  shows "\<not> pending_has (pendingRequests (fst (sendRequest Draft3 rt uuid sched during res c a payload))) i
       \<and> \<not> pending_has_own (pendingRequests (fst (sendRequest Draft3 rt uuid sched during res c a payload))) a i
       \<and> (LogError ''POST request failed with status''
             \<in> set (fst (snd (sendRequest Draft3 rt uuid sched during res c a payload)))
          \<or> LogError ''Failed to send request to remote server''
             \<in> set (fst (snd (sendRequest Draft3 rt uuid sched during res c a payload))))
       \<and> length (posts_of (fst (snd (sendRequest Draft3 rt uuid sched during res c a payload)))) = 1
       \<and> snd (snd (sendRequest Draft3 rt uuid sched during res c a payload)) = Resolved"
proof -
  have d: "Draft3 \<noteq> Draft1" by simp
  from assms(1) have ok: "snd (snd (waitForSessionId Draft3 rt uuid sched c)) = Resolved"
    by (cases "snd (snd (waitForSessionId Draft3 rt uuid sched c))") (auto simp: sendRequest_posts[OF d])
  from assms(1) ok obtain messagesUrl
    where url: "getMessagesUrl Draft3 rt (fst (waitForSessionId Draft3 rt uuid sched c)) = Some messagesUrl"
    by (cases "getMessagesUrl Draft3 rt (fst (waitForSessionId Draft3 rt uuid sched c))")
       (auto simp: sendRequest_posts[OF d])
  from assms(1) ok url obtain token
    where token: "String_of (apiToken (fst (waitForSessionId Draft3 rt uuid sched c))) = Some token"
    by (cases "String_of (apiToken (fst (waitForSessionId Draft3 rt uuid sched c)))")
       (auto simp: sendRequest_posts[OF d])
  have one: "length (posts_of (fst (snd (sendRequest Draft3 rt uuid sched during res c a payload)))) = 1"
    by (simp add: sendRequest_posts[OF d] ok url token)
  show ?thesis
  proof (cases res)
    case (HttpResponse status text_returns)
    with assms(2) have bad: "\<not> response_ok status" by simp
    show ?thesis
      using one bad unfolding HttpResponse
      by (simp add: sendRequest_posted[OF d ok url token] pending_has_cleanup[OF assms(3)])
  next
    case FetchThrows
    show ?thesis
      using one unfolding FetchThrows
      by (simp add: sendRequest_posted[OF d ok url token] pending_has_cleanup[OF assms(3)])
  qed
qed

text \<open>
  Claim C5 on the second draft.  \<open>ping_request\<close> is in the table and the session is
  announced; the POST comes back with status 500, or the send throws.  \<^verbatim>\<open>sendRequest\<close>
  catches the failure and resolves, so the handler of \<^verbatim>\<open>main\<close> that would delete the entry
  never runs: the entry is still in the table.
\<close>

theorem second_draft_failed_post_keeps_entry:
  "pending_has (pendingRequests ready_connector) (JNum 1)
   \<and> property ping_request ''id'' = Some (JNum 1)
   \<and> \<not> response_ok 500
   \<and> length (posts_of (snd (send_and_catch Draft2 sample_runtime sample_uuid silence []
        (HttpResponse 500 True) LogAndUntrack ready_connector 0 ping_request))) = 1
   \<and> pending_has (pendingRequests (fst (send_and_catch Draft2 sample_runtime sample_uuid silence []
        (HttpResponse 500 True) LogAndUntrack ready_connector 0 ping_request))) (JNum 1)
   \<and> pending_has (pendingRequests (fst (send_and_catch Draft2 sample_runtime sample_uuid silence []
        FetchThrows LogAndUntrack ready_connector 0 ping_request))) (JNum 1)
   \<and> \<not> pending_has (pendingRequests (fst (send_and_catch Draft3 sample_runtime sample_uuid silence []
        (HttpResponse 500 True) LogAndUntrack ready_connector 0 ping_request))) (JNum 1)"
  by code_simp

end
